theory Spec2Isabelle
  imports Complex_Main
begin

section \<open>Data model\<close>

text \<open>
  Arrays are row-major lists: a two-dimensional numpy array is the list of its rows.
  Floating-point numbers are read as reals (complex entries for the coupling and Fock
  arrays, whose conjugates the source takes), under the precondition of the
  specification that every input is finite.
\<close>

type_synonym matrix = "complex list list"

text \<open>
  \<^verbatim>\<open>agf2.SelfEnergy\<close> and \<^verbatim>\<open>agf2.GreensFunction\<close> are both auxiliary spaces: pole
  energies, a coupling array with one row per physical orbital and one column per pole, and a
  chemical potential. The source reads and writes exactly these three attributes.
\<close>

record auxiliary_space =
  energy :: "real list"
  coupling :: matrix
  chempot :: real

type_synonym self_energy = auxiliary_space
type_synonym greens_function = auxiliary_space

text \<open>Exceptions that the modelled code can raise or let through.\<close>

datatype py_exn = LinAlgError | UnboundLocalError | ValueError | AttributeError | OtherException

text \<open>
  A convergence threshold of the outer driver: a finite float, or \<^verbatim>\<open>np.inf\<close> (the default
  of \<^verbatim>\<open>conv_tol_t0\<close> and \<^verbatim>\<open>conv_tol_t1\<close>). \<open>below x t\<close> is the comparison \<^verbatim>\<open>x < t\<close>
  of a finite \<open>x\<close> with the threshold.
\<close>

datatype threshold = Finite real | PosInf

fun below :: "real \<Rightarrow> threshold \<Rightarrow> bool" where
  "below x (Finite t) = (x < t)"
| "below x PosInf = True"

text \<open>The fields of the dataclass \<^verbatim>\<open>RAGF2Options\<close> that steer the modelled code.\<close>

record RAGF2Options =
  weight_tol :: real
  nmom_lanczos :: nat
  nmom_projection :: "nat option"
  os_factor :: real
  ss_factor :: real
  diagonal_se :: bool
  max_cycle :: nat
  conv_tol :: threshold
  conv_tol_t0 :: threshold
  conv_tol_t1 :: threshold
  as_adc :: bool
  extra_cycle :: bool
  fock_loop :: bool
  max_cycle_outer :: nat
  max_cycle_inner :: nat
  conv_tol_rdm1 :: real
  conv_tol_nelec :: real
  conv_tol_nelec_factor :: real
  fock_diis_space :: nat
  fock_diis_min_space :: nat
  fock_damping :: real

text \<open>The defaults of the dataclass.\<close>

definition default_options :: RAGF2Options where
  "default_options =
     \<lparr> weight_tol = 1 / 10 ^ 12, nmom_lanczos = 0, nmom_projection = None,
       os_factor = 1, ss_factor = 1, diagonal_se = False,
       max_cycle = 50, conv_tol = Finite (1 / 10 ^ 7), conv_tol_t0 = PosInf, conv_tol_t1 = PosInf,
       as_adc = False, extra_cycle = True,
       fock_loop = True, max_cycle_outer = 20, max_cycle_inner = 50,
       conv_tol_rdm1 = 1 / 10 ^ 8, conv_tol_nelec = 1 / 10 ^ 6,
       conv_tol_nelec_factor = 1 / 10 ^ 2,
       fock_diis_space = 8, fock_diis_min_space = 1, fock_damping = 0 \<rparr>"

section \<open>Auxiliary spaces\<close>

text \<open>
  Pole \<open>j\<close> of an auxiliary space is its \<open>j\<close>-th energy together with the \<open>j\<close>-th column
  of the coupling array; the number of poles is the number of energies. The squared norm of
  a column is the weight of its pole (\<^verbatim>\<open>np.linalg.norm(coupling, axis=0)**2\<close> in
  \<^verbatim>\<open>qmo_occ\<close>).
\<close>

definition naux :: "auxiliary_space \<Rightarrow> nat" where
  "naux a = length (energy a)"

definition column :: "matrix \<Rightarrow> nat \<Rightarrow> complex list" where
  "column m j = map (\<lambda>r. r ! j) m"

definition norm_sq :: "complex list \<Rightarrow> real" where
  "norm_sq c = (\<Sum>x\<leftarrow>c. (cmod x)\<^sup>2)"

definition pole :: "auxiliary_space \<Rightarrow> nat \<Rightarrow> real \<times> complex list" where
  "pole a j = (energy a ! j, column (coupling a) j)"

definition poles :: "auxiliary_space \<Rightarrow> (real \<times> complex list) list" where
  "poles a = map (pole a) [0..<naux a]"

text \<open>
  numpy's selection of poles by a boolean mask, \<^verbatim>\<open>energy[mask]\<close> and
  \<^verbatim>\<open>coupling[:, mask]\<close>, with the mask given by the list of the indices it keeps.
\<close>

definition select_poles :: "nat list \<Rightarrow> auxiliary_space \<Rightarrow> auxiliary_space" where
  "select_poles ks a =
     a\<lparr> energy := map (\<lambda>j. energy a ! j) ks,
        coupling := map (\<lambda>r. map (\<lambda>j. r ! j) ks) (coupling a) \<rparr>"

text \<open>
  Modelled from the spec: \<^verbatim>\<open>remove_uncoupled\<close> is a method of the PySCF auxiliary-space
  classes, which the repository imports and does not define. The specification: poles whose
  coupling-vector squared norm is below a configured tolerance are discarded.
\<close>

definition remove_uncoupled :: "real \<Rightarrow> auxiliary_space \<Rightarrow> auxiliary_space" where
  "remove_uncoupled tol a =
     select_poles (filter (\<lambda>j. \<not> norm_sq (column (coupling a) j) < tol) [0..<naux a]) a"

text \<open>
  Modelled from the spec: \<^verbatim>\<open>get_occupied\<close> is a method of the same PySCF classes. The
  specification: the chemical potential separates the occupied poles from the others, and
  the occupied ones are those with an energy strictly below it, as in \<^verbatim>\<open>build_self_energy\<close>
  (\<^verbatim>\<open>gf.energy < gf.chempot\<close>) and \<^verbatim>\<open>energy_mp2\<close>.
\<close>

definition get_occupied :: "auxiliary_space \<Rightarrow> auxiliary_space" where
  "get_occupied a = select_poles (filter (\<lambda>j. energy a ! j < chempot a) [0..<naux a]) a"

text \<open>
  Modelled from the spec: \<^verbatim>\<open>get_virtual\<close> is a method of the same PySCF classes. The
  specification: the virtual poles are those with an energy at or above the chemical
  potential (\<^verbatim>\<open>mo_energy >= se.chempot\<close> in \<^verbatim>\<open>energy_mp2\<close>).
\<close>

definition get_virtual :: "auxiliary_space \<Rightarrow> auxiliary_space" where
  "get_virtual a = select_poles (filter (\<lambda>j. chempot a \<le> energy a ! j) [0..<naux a]) a"

text \<open>
  Modelled from the spec: \<^verbatim>\<open>agf2.aux.combine\<close> is a PySCF function. The specification:
  simple pole-set concatenation, the chemical potential carried over. The model takes the
  chemical potential of the first space; every caller passes two spaces built with the same
  one.
\<close>

definition combine :: "auxiliary_space \<Rightarrow> auxiliary_space \<Rightarrow> auxiliary_space" where
  "combine a b =
     \<lparr> energy = energy a @ energy b,
       coupling = map2 (@) (coupling a) (coupling b),
       chempot = chempot a \<rparr>"

section \<open>The solver object and its collaborators\<close>

text \<open>
  The attributes of a \<^verbatim>\<open>RAGF2\<close> object that the modelled methods read: the options, the
  number of active orbitals, the number of occupied orbitals and the frozen counts.
\<close>

record solver =
  opts :: RAGF2Options
  nact :: nat
  nocc :: nat
  frozen :: "nat \<times> nat"

text \<open>
  The numerical routines of NumPy, SciPy and PySCF, and the methods of the solver that only
  wrap them, are taken as parameters; what is modelled is the control flow around them.
  \<open>'h\<close> is the history held by a \<^verbatim>\<open>lib.diis.DIIS\<close> object, which \<^verbatim>\<open>update\<close> mutates:
  the library's \<^verbatim>\<open>update\<close> returns the new history with either the extrapolated array or
  the exception it raised.
\<close>

record 'h collaborators =
  eigh :: "matrix \<Rightarrow> real list \<times> matrix"
  binsearch_chempot :: "real list \<times> matrix \<Rightarrow> nat \<Rightarrow> int \<Rightarrow> real \<times> real"
  minimize_chempot :: "self_energy \<Rightarrow> matrix \<Rightarrow> int \<Rightarrow> real \<Rightarrow> real \<Rightarrow> nat \<Rightarrow> self_energy"
  get_fock :: "greens_function \<Rightarrow> matrix"
  make_rdm1 :: "greens_function \<Rightarrow> matrix"
  max_abs_diff :: "matrix \<Rightarrow> matrix \<Rightarrow> real"
  new_diis :: "nat \<Rightarrow> nat \<Rightarrow> 'h"
  lib_diis_update :: "'h \<Rightarrow> matrix \<Rightarrow> (py_exn + matrix) \<times> 'h"
  compress :: "nat \<Rightarrow> matrix \<Rightarrow> self_energy \<Rightarrow> self_energy"
  moments_eigh :: "matrix list \<Rightarrow> real \<Rightarrow> real list \<times> matrix"
  moments_block_lanczos :: "matrix list \<Rightarrow> real list \<times> matrix"

section \<open>DIIS with a guard\<close>

text \<open>
  \<^verbatim>\<open>DIIS.update\<close>: call the library's update; if it raises \<^verbatim>\<open>LinAlgError\<close>, return
  the input \<open>x\<close>. Any other exception passes through. The history is whatever the library
  left behind.
\<close>

definition DIIS_update ::
  "('h \<Rightarrow> 'x \<Rightarrow> (py_exn + 'x) \<times> 'h) \<Rightarrow> 'h \<Rightarrow> 'x \<Rightarrow> (py_exn + 'x) \<times> 'h" where
  "DIIS_update base h x =
     (case base h x of
        (Inl e, h') \<Rightarrow> (case e of LinAlgError \<Rightarrow> (Inr x, h') | _ \<Rightarrow> (Inl e, h'))
      | (Inr y, h') \<Rightarrow> (Inr y, h'))"

section \<open>Moments and pole extraction\<close>

text \<open>
  Python's \<^verbatim>\<open>x or d\<close> for an optional float \<open>x\<close>: \<^verbatim>\<open>None\<close> and \<^verbatim>\<open>0.0\<close> are both
  falsy and give \<open>d\<close>.
\<close>

definition py_or :: "real option \<Rightarrow> real \<Rightarrow> real" where
  "py_or x d = (case x of None \<Rightarrow> d | Some v \<Rightarrow> if v = 0 then d else v)"

text \<open>
  \<^verbatim>\<open>_build_moments\<close>. The integrals \<open>xija\<close> are either a tuple of two density-fitted
  arrays (\<open>Inl\<close>) or one dense array (\<open>Inr\<close>). The contractions are parameters:
  \<open>incore_df\<close> and \<open>incore_4c\<close> are PySCF's \<^verbatim>\<open>build_mats_dfragf2_incore\<close> and
  \<^verbatim>\<open>build_mats_ragf2_incore\<close>, called with the two factors; \<open>accumulate\<close> is the explicit
  loop over \<open>i\<close> and \<open>n\<close> of the other branch, which reads the factors only through
  \<open>fpos\<close> and \<open>fneg\<close>.
\<close>

definition build_moments ::
  "('q \<Rightarrow> 'q \<Rightarrow> 'e \<Rightarrow> 'e \<Rightarrow> real \<Rightarrow> real \<Rightarrow> 't) \<Rightarrow>
   ('x \<Rightarrow> 'e \<Rightarrow> 'e \<Rightarrow> real \<Rightarrow> real \<Rightarrow> 't) \<Rightarrow>
   (nat \<Rightarrow> bool \<Rightarrow> real \<Rightarrow> real \<Rightarrow> 'e \<Rightarrow> 'e \<Rightarrow> ('q \<times> 'q) + 'x \<Rightarrow> 't) \<Rightarrow>
   solver \<Rightarrow> 'e \<Rightarrow> 'e \<Rightarrow> ('q \<times> 'q) + 'x \<Rightarrow> real option \<Rightarrow> real option \<Rightarrow> 't" where
  "build_moments incore_df incore_4c accumulate self eo ev xija os_arg ss_arg =
     (let os = py_or os_arg (os_factor (opts self));
          ss = py_or ss_arg (ss_factor (opts self))
      in if nmom_lanczos (opts self) = 0 \<and> \<not> diagonal_se (opts self) then
           (case xija of
              Inl (qxi, qja) \<Rightarrow> incore_df qxi qja eo ev os ss
            | Inr x \<Rightarrow> incore_4c x eo ev os ss)
         else
           (let fpos = os + ss; fneg = - ss
            in accumulate (nmom_lanczos (opts self)) (diagonal_se (opts self)) fpos fneg eo ev xija))"

text \<open>
  \<^verbatim>\<open>_build_se_from_moments\<close>: the poles \<open>(e, v)\<close> come from the eigendecompositions of the
  order-0 path or from the block-Lanczos recursion; the self-energy built from them is then
  pruned at \<^verbatim>\<open>weight_tol\<close>.
\<close>

definition build_se_from_moments ::
  "'h collaborators \<Rightarrow> solver \<Rightarrow> matrix list \<Rightarrow> real \<Rightarrow> real \<Rightarrow> self_energy" where
  "build_se_from_moments env self t mu eps =
     (let (e, v) = (if nmom_lanczos (opts self) = 0 then moments_eigh env t eps
                    else moments_block_lanczos env t)
      in remove_uncoupled (weight_tol (opts self)) \<lparr> energy = e, coupling = v, chempot = mu \<rparr>)"

text \<open>
  \<^verbatim>\<open>_combine_se\<close>: concatenate, compress through the Fock matrix of \<^verbatim>\<open>gf or self.gf\<close>
  when a projection order is configured, and prune at \<^verbatim>\<open>weight_tol\<close>.
\<close>

definition combine_se ::
  "'h collaborators \<Rightarrow> solver \<Rightarrow> greens_function \<Rightarrow> self_energy \<Rightarrow> self_energy \<Rightarrow>
   greens_function option \<Rightarrow> self_energy" where
  "combine_se env self self_gf se_occ se_vir gf =
     (let se = combine se_occ se_vir;
          se = (case nmom_projection (opts self) of
                  None \<Rightarrow> se
                | Some n \<Rightarrow>
                    compress env n
                      (get_fock env (case gf of None \<Rightarrow> self_gf | Some g \<Rightarrow> g)) se)
      in remove_uncoupled (weight_tol (opts self)) se)"

section \<open>The Dyson equation\<close>

text \<open>
  \<^verbatim>\<open>np.diag(e)\<close>, \<^verbatim>\<open>v.T.conj()\<close> and \<^verbatim>\<open>np.block([[a, b], [c, d]])\<close>. A list of rows
  does not record the number of columns of an array without rows, so the transpose takes it
  as an argument.
\<close>

definition np_diag :: "real list \<Rightarrow> matrix" where
  "np_diag e =
     map (\<lambda>i. map (\<lambda>j. if i = j then complex_of_real (e ! i) else 0) [0..<length e])
       [0..<length e]"

definition conj_T :: "nat \<Rightarrow> matrix \<Rightarrow> matrix" where
  "conj_T ncols v = map (\<lambda>j. map cnj (column v j)) [0..<ncols]"

definition np_block :: "matrix \<Rightarrow> matrix \<Rightarrow> matrix \<Rightarrow> matrix \<Rightarrow> matrix" where
  "np_block a b c d = map2 (@) a b @ map2 (@) c d"

definition f_ext :: "self_energy \<Rightarrow> matrix \<Rightarrow> matrix" where
  "f_ext se fock =
     (let e = energy se; v = coupling se
      in np_block fock v (conj_T (length e) v) (np_diag e))"

text \<open>
  \<^verbatim>\<open>solve_dyson\<close>, called with a self-energy and a Fock matrix. After the
  eigendecomposition come two calls of \<^verbatim>\<open>log.debugv\<close> whose arguments are evaluated at
  every log level: \<^verbatim>\<open>np.min\<close> and \<^verbatim>\<open>np.max\<close> of the eigenvalues below the chemical
  potential, then of those at or above it. On an empty selection \<^verbatim>\<open>np.min\<close> raises
  \<^verbatim>\<open>ValueError\<close>.
\<close>

definition solve_dyson ::
  "'h collaborators \<Rightarrow> self_energy \<Rightarrow> matrix \<Rightarrow> py_exn + (real list \<times> matrix)" where
  "solve_dyson env se fock =
     (case eigh env (f_ext se fock) of (w, v) \<Rightarrow>
        if filter (\<lambda>x. x < chempot se) w = [] then Inl ValueError
        else if filter (\<lambda>x. chempot se \<le> x) w = [] then Inl ValueError
        else Inr (w, v))"

text \<open>
  The augmented matrix in the words of the specification, entry by entry: the Fock matrix
  in the upper left block, the coupling in the upper right, its conjugate transpose in the
  lower left and the diagonal matrix of the pole energies in the lower right.
\<close>

definition augmented_entry :: "matrix \<Rightarrow> matrix \<Rightarrow> real list \<Rightarrow> nat \<Rightarrow> nat \<Rightarrow> complex" where
  "augmented_entry fock v e i j =
     (let n = length fock in
      if i < n then (if j < n then fock ! i ! j else v ! i ! (j - n))
      else if j < n then cnj (v ! j ! (i - n))
      else if i = j then complex_of_real (e ! (i - n)) else 0)"

section \<open>The Fock loop\<close>

text \<open>
  The local variables of \<^verbatim>\<open>fock_loop\<close>. The variables \<^verbatim>\<open>w\<close>, \<^verbatim>\<open>v\<close>, \<^verbatim>\<open>nerr\<close>,
  \<^verbatim>\<open>derr\<close> and \<^verbatim>\<open>niter2\<close> are bound by the body of the inner loop only: \<open>l_inner\<close> is
  \<open>None\<close> until that body has run once, and then holds \<open>(w, v, nerr, derr)\<close>.
\<close>

record 'h locals =
  l_gf :: greens_function
  l_se :: self_energy
  l_fock :: matrix
  l_rdm1_prev :: matrix
  l_diis :: 'h
  l_inner :: "(real list \<times> matrix \<times> real \<times> real) option"

text \<open>
  What \<^verbatim>\<open>fock_loop\<close> returns: a tuple of three values, or of four when the Fock matrix
  is returned as well (\<open>ret_fock\<close> is then \<open>Some\<close>).
\<close>

record fock_loop_return =
  ret_gf :: greens_function
  ret_se :: self_energy
  ret_converged :: bool
  ret_fock :: "matrix option"

definition nelec :: "solver \<Rightarrow> int" where
  "nelec self = (int (nocc self) - int (fst (frozen self))) * 2"

definition zeros_like :: "matrix \<Rightarrow> matrix" where
  "zeros_like m = map (map (\<lambda>_. 0)) m"

text \<open>\<^verbatim>\<open>fock *= (1.0 - d); fock += d * fock_prev\<close>\<close>

definition damp :: "real \<Rightarrow> matrix \<Rightarrow> matrix \<Rightarrow> matrix" where
  "damp d fock fock_prev =
     map2 (map2 (+)) (map (map (\<lambda>x. complex_of_real (1 - d) * x)) fock)
       (map (map (\<lambda>x. complex_of_real d * x)) fock_prev)"

text \<open>The body of the inner loop up to its test, with the value of \<^verbatim>\<open>derr\<close>.\<close>

definition inner_body ::
  "'h collaborators \<Rightarrow> solver \<Rightarrow> 'h locals \<Rightarrow> py_exn + ('h locals \<times> real)" where
  "inner_body env self st =
     (case solve_dyson env (l_se st) (l_fock st) of
        Inl e \<Rightarrow> Inl e
      | Inr (w, v) \<Rightarrow>
          (let (mu, nerr) = binsearch_chempot env (w, v) (nact self) (nelec self);
               se = (l_se st)\<lparr> chempot := mu \<rparr>;
               gf = \<lparr> energy = w, coupling = take (nact self) v, chempot = mu \<rparr>;
               fock_prev = l_fock st;
               fock = get_fock env gf;
               fock = (if fock_damping (opts self) \<noteq> 0
                       then damp (fock_damping (opts self)) fock fock_prev else fock);
               rdm1 = make_rdm1 env gf
           in case DIIS_update (lib_diis_update env) (l_diis st) fock of
                (Inl e, h) \<Rightarrow> Inl e
              | (Inr fock, h) \<Rightarrow>
                  (let derr = max_abs_diff env rdm1 (l_rdm1_prev st)
                   in Inr (st\<lparr> l_gf := gf, l_se := se, l_fock := fock, l_rdm1_prev := rdm1,
                               l_diis := h, l_inner := Some (w, v, nerr, derr) \<rparr>,
                           derr))))"

text \<open>
  \<^verbatim>\<open>for niter2 in range(1, max_cycle_inner+1)\<close>, with the number of iterations left as the
  argument: the loop breaks when the density-matrix change is below \<^verbatim>\<open>conv_tol_rdm1\<close>.
\<close>

fun inner_loop :: "'h collaborators \<Rightarrow> solver \<Rightarrow> nat \<Rightarrow> 'h locals \<Rightarrow> py_exn + 'h locals" where
  "inner_loop env self 0 st = Inr st"
| "inner_loop env self (Suc n) st =
     (case inner_body env self st of
        Inl e \<Rightarrow> Inl e
      | Inr (st', derr) \<Rightarrow>
          if \<bar>derr\<bar> < conv_tol_rdm1 (opts self) then Inr st'
          else inner_loop env self n st')"

text \<open>
  One pass of the outer loop up to its convergence test: the chemical-potential
  minimisation, the inner loop, and the log line that reads \<^verbatim>\<open>niter2\<close>, \<^verbatim>\<open>nerr\<close> and
  \<^verbatim>\<open>derr\<close>, which raises when the inner loop has never bound them.
\<close>

definition outer_body ::
  "'h collaborators \<Rightarrow> solver \<Rightarrow> 'h locals \<Rightarrow> py_exn + ('h locals \<times> real \<times> real)" where
  "outer_body env self st =
     (let se = minimize_chempot env (l_se st) (l_fock st) (nelec self) (chempot (l_se st))
                 (conv_tol_nelec (opts self) * conv_tol_nelec_factor (opts self))
                 (max_cycle_inner (opts self));
          st = st\<lparr> l_se := se \<rparr>
      in case inner_loop env self (max_cycle_inner (opts self)) st of
           Inl e \<Rightarrow> Inl e
         | Inr st' \<Rightarrow>
             (case l_inner st' of
                None \<Rightarrow> Inl UnboundLocalError
              | Some (w, v, nerr, derr) \<Rightarrow> Inr (st', nerr, derr)))"

text \<open>The convergence test that ends an outer cycle.\<close>

definition cycle_converged :: "solver \<Rightarrow> real \<Rightarrow> real \<Rightarrow> bool" where
  "cycle_converged self nerr derr =
     (\<bar>derr\<bar> < conv_tol_rdm1 (opts self) \<and> \<bar>nerr\<bar> < conv_tol_nelec (opts self))"

text \<open>
  \<^verbatim>\<open>for niter1 in range(1, max_cycle_outer+1)\<close>, with the number of cycles left as the
  argument; the result is the locals and the flag \<^verbatim>\<open>converged\<close> at the end of the loop.
\<close>

fun outer_loop ::
  "'h collaborators \<Rightarrow> solver \<Rightarrow> nat \<Rightarrow> 'h locals \<Rightarrow> py_exn + ('h locals \<times> bool)" where
  "outer_loop env self 0 st = Inr (st, False)"
| "outer_loop env self (Suc n) st =
     (case outer_body env self st of
        Inl e \<Rightarrow> Inl e
      | Inr (st', nerr, derr) \<Rightarrow>
          if cycle_converged self nerr derr then Inr (st', True)
          else outer_loop env self n st')"

text \<open>
  The first lines of \<^verbatim>\<open>fock_loop\<close>: a Fock matrix that is not passed is built from the
  Green's function. The locals at the entry of the outer loop follow: a fresh DIIS object, a
  zero \<^verbatim>\<open>rdm1_prev\<close>, and nothing bound by the inner loop yet.
\<close>

definition resolve_fock :: "'h collaborators \<Rightarrow> greens_function \<Rightarrow> matrix option \<Rightarrow> matrix" where
  "resolve_fock env gf fock_arg = (case fock_arg of None \<Rightarrow> get_fock env gf | Some f \<Rightarrow> f)"

definition init_locals ::
  "'h collaborators \<Rightarrow> solver \<Rightarrow> greens_function \<Rightarrow> self_energy \<Rightarrow> matrix option \<Rightarrow> 'h locals" where
  "init_locals env self gf se fock_arg =
     (let fock = resolve_fock env gf fock_arg
      in \<lparr> l_gf = gf, l_se = se, l_fock = fock, l_rdm1_prev = zeros_like fock,
            l_diis = new_diis env (fock_diis_space (opts self)) (fock_diis_min_space (opts self)),
            l_inner = None \<rparr>)"

text \<open>
  \<^verbatim>\<open>RAGF2.fock_loop\<close>, called with a Green's function and a self-energy (the defaults
  \<^verbatim>\<open>self.gf\<close> and \<^verbatim>\<open>self.se\<close> resolved by the caller) and an optional Fock matrix. With
  the option \<^verbatim>\<open>fock_loop\<close> off it returns three values whatever \<^verbatim>\<open>return_fock\<close> is.
\<close>

definition RAGF2_fock_loop ::
  "'h collaborators \<Rightarrow> solver \<Rightarrow> greens_function \<Rightarrow> self_energy \<Rightarrow> matrix option \<Rightarrow>
   bool \<Rightarrow> bool \<Rightarrow> py_exn + fock_loop_return" where
  "RAGF2_fock_loop env self gf se fock_arg project_gf return_fock =
     (if \<not> fock_loop (opts self) then
        (case solve_dyson env se (resolve_fock env gf fock_arg) of
           Inl e \<Rightarrow> Inl e
         | Inr (w, v) \<Rightarrow>
             (let gf = (if project_gf
                        then \<lparr> energy = w, coupling = take (nact self) v, chempot = chempot se \<rparr>
                        else \<lparr> energy = w, coupling = v, chempot = chempot se \<rparr>);
                  mu = fst (binsearch_chempot env (w, v) (nact self) (nelec self))
              in Inr \<lparr> ret_gf = gf\<lparr> chempot := mu \<rparr>, ret_se = se\<lparr> chempot := mu \<rparr>,
                       ret_converged = True, ret_fock = None \<rparr>))
      else
        (case outer_loop env self (max_cycle_outer (opts self))
                (init_locals env self gf se fock_arg) of
           Inl e \<Rightarrow> Inl e
         | Inr (st, converged) \<Rightarrow>
             (let ret = \<lparr> ret_gf = l_gf st, ret_se = l_se st, ret_converged = converged,
                          ret_fock = (if return_fock then Some (l_fock st) else None) \<rparr>
              in if project_gf then Inr ret
                 else (case l_inner st of
                         None \<Rightarrow> Inl UnboundLocalError
                       | Some (w, v, nerr, derr) \<Rightarrow>
                           Inr (ret\<lparr> ret_gf := \<lparr> energy = w, coupling = v,
                                                   chempot = chempot (l_se st) \<rparr> \<rparr>)))))"

text \<open>
  In the words of the specification: the locals, electron-number error and density-matrix
  change with which outer cycle \<open>k + 1\<close> ends when no earlier cycle has stopped the loop.
\<close>

fun cycle_end ::
  "'h collaborators \<Rightarrow> solver \<Rightarrow> nat \<Rightarrow> 'h locals \<Rightarrow> py_exn + ('h locals \<times> real \<times> real)" where
  "cycle_end env self 0 st = outer_body env self st"
| "cycle_end env self (Suc k) st =
     (case outer_body env self st of
        Inl e \<Rightarrow> Inl e
      | Inr (st', nerr, derr) \<Rightarrow> cycle_end env self k st')"

text \<open>The DIIS library raises nothing but \<^verbatim>\<open>LinAlgError\<close>.\<close>

definition raises_only_LinAlgError :: "'h collaborators \<Rightarrow> bool" where
  "raises_only_LinAlgError env =
     (\<forall>h x e. fst (lib_diis_update env h x) = Inl e \<longrightarrow> e = LinAlgError)"

section \<open>The outer drivers\<close>

text \<open>
  Python's unpacking of the tuple that \<^verbatim>\<open>fock_loop\<close> returns into three targets
  (\<^verbatim>\<open>RAGF2.kernel\<close>) or into four (\<^verbatim>\<open>EAGF2.kernel\<close>): a tuple of another length raises
  \<^verbatim>\<open>ValueError\<close>.
\<close>

definition unpack3 ::
  "fock_loop_return \<Rightarrow> py_exn + (greens_function \<times> self_energy \<times> bool)" where
  "unpack3 ret =
     (case ret_fock ret of
        None \<Rightarrow> Inr (ret_gf ret, ret_se ret, ret_converged ret)
      | Some fock \<Rightarrow> Inl ValueError)"

definition unpack4 ::
  "fock_loop_return \<Rightarrow> py_exn + (greens_function \<times> self_energy \<times> bool \<times> matrix)" where
  "unpack4 ret =
     (case ret_fock ret of
        None \<Rightarrow> Inl ValueError
      | Some fock \<Rightarrow> Inr (ret_gf ret, ret_se ret, ret_converged ret, fock))"

type_synonym deltas = "real \<times> real \<times> real"

definition deltas_ok :: "RAGF2Options \<Rightarrow> deltas \<Rightarrow> bool" where
  "deltas_ok options d =
     (case d of (d0, d1, d2) \<Rightarrow>
        below d0 (conv_tol options) \<and> below d1 (conv_tol_t0 options) \<and> below d2 (conv_tol_t1 options))"

text \<open>
  The outcome of a driver that returns: the final state, the flag \<^verbatim>\<open>converged\<close>, and for
  every iteration that ran whether its deltas met the tolerances.
\<close>

record 'st outcome =
  final :: 'st
  converged :: bool
  checks :: "bool list"

text \<open>
  The state that \<^verbatim>\<open>RAGF2.kernel\<close> carries from one iteration to the next: the Green's
  function, the self-energy, and in \<open>'st\<close> everything else (energies, the DIIS object of
  the outer loop). One pass of the body: the call of \<^verbatim>\<open>fock_loop(gf=gf, se=se)\<close>, unpacked
  into three targets, and then the parameter \<open>post\<close> for the rest (energies, the new
  self-energy from \<^verbatim>\<open>build_self_energy\<close> and \<^verbatim>\<open>run_diis\<close>, \<^verbatim>\<open>_convergence_checks\<close>),
  which gets the iteration number, the copy \<^verbatim>\<open>se_prev\<close> made before the Fock loop, and
  the results of the Fock loop; it gives the new self-energy and the three deltas, or raises.
\<close>

type_synonym 'st ragf2_state = "greens_function \<times> self_energy \<times> 'st"

definition RAGF2_iteration ::
  "'h collaborators \<Rightarrow> solver \<Rightarrow>
   (nat \<Rightarrow> self_energy \<Rightarrow> greens_function \<Rightarrow> self_energy \<Rightarrow> 'st \<Rightarrow>
      py_exn + (self_energy \<times> 'st \<times> deltas)) \<Rightarrow>
   nat \<Rightarrow> 'st ragf2_state \<Rightarrow> py_exn + ('st ragf2_state \<times> deltas)" where
  "RAGF2_iteration env self post niter st =
     (case st of (gf, se, s) \<Rightarrow>
        (case RAGF2_fock_loop env self gf se None True False of
           Inl e \<Rightarrow> Inl e
         | Inr ret \<Rightarrow>
             (case unpack3 ret of
                Inl e \<Rightarrow> Inl e
              | Inr (gf', se', fconv) \<Rightarrow>
                  (case post niter se gf' se' s of
                     Inl e \<Rightarrow> Inl e
                   | Inr (se'', s', d) \<Rightarrow> Inr ((gf', se'', s'), d)))))"

text \<open>
  The loop of \<^verbatim>\<open>RAGF2.kernel\<close> over the iteration numbers still to run, with the flag
  \<^verbatim>\<open>converged_prev\<close> and the checks so far. An exception raised in the body ends the call.
\<close>

fun RAGF2_loop ::
  "RAGF2Options \<Rightarrow> (nat \<Rightarrow> 'st \<Rightarrow> py_exn + ('st \<times> deltas)) \<Rightarrow> nat list \<Rightarrow> 'st \<Rightarrow> bool \<Rightarrow>
   bool list \<Rightarrow> py_exn + 'st outcome" where
  "RAGF2_loop options iteration [] s converged_prev cs =
     Inr \<lparr> final = s, converged = False, checks = cs \<rparr>"
| "RAGF2_loop options iteration (niter # rest) s converged_prev cs =
     (case iteration niter s of
        Inl e \<Rightarrow> Inl e
      | Inr (s', d) \<Rightarrow>
          if deltas_ok options d then
            if extra_cycle options \<and> \<not> converged_prev
            then RAGF2_loop options iteration rest s' True (cs @ [True])
            else Inr \<lparr> final = s', converged = True, checks = cs @ [True] \<rparr>
          else
            if extra_cycle options \<and> converged_prev
            then RAGF2_loop options iteration rest s' False (cs @ [False])
            else RAGF2_loop options iteration rest s' converged_prev (cs @ [False]))"

text \<open>
  \<^verbatim>\<open>kernel_adc\<close>: one call of \<^verbatim>\<open>fock_loop\<close>, unpacked into three targets, and the
  return value \<^verbatim>\<open>True\<close>.
\<close>

definition RAGF2_kernel_adc ::
  "'h collaborators \<Rightarrow> solver \<Rightarrow> 'st ragf2_state \<Rightarrow> py_exn + 'st ragf2_state outcome" where
  "RAGF2_kernel_adc env self st =
     (case st of (gf, se, s) \<Rightarrow>
        (case RAGF2_fock_loop env self gf se None True False of
           Inl e \<Rightarrow> Inl e
         | Inr ret \<Rightarrow>
             (case unpack3 ret of
                Inl e \<Rightarrow> Inl e
              | Inr (gf', se', fconv) \<Rightarrow>
                  Inr \<lparr> final = (gf', se', s), converged = True, checks = [] \<rparr>)))"

text \<open>
  \<^verbatim>\<open>RAGF2.kernel\<close>, from the initial Green's function and self-energy on: with
  \<^verbatim>\<open>as_adc\<close> it hands over to \<^verbatim>\<open>kernel_adc\<close>; otherwise it runs the loop for
  \<^verbatim>\<open>niter in range(1, max_cycle+1)\<close>.
\<close>

definition RAGF2_kernel ::
  "'h collaborators \<Rightarrow> solver \<Rightarrow>
   (nat \<Rightarrow> self_energy \<Rightarrow> greens_function \<Rightarrow> self_energy \<Rightarrow> 'st \<Rightarrow>
      py_exn + (self_energy \<times> 'st \<times> deltas)) \<Rightarrow>
   'st ragf2_state \<Rightarrow> py_exn + 'st ragf2_state outcome" where
  "RAGF2_kernel env self post st =
     (if as_adc (opts self) then RAGF2_kernel_adc env self st
      else RAGF2_loop (opts self) (RAGF2_iteration env self post)
             [1..<max_cycle (opts self) + 1] st False [])"

text \<open>
  The state that \<^verbatim>\<open>EAGF2.kernel\<close> carries: \<^verbatim>\<open>solver.gf\<close> (\<^verbatim>\<open>None\<close> until the first
  iteration has set it), \<^verbatim>\<open>solver.se\<close>, the Fock matrix \<^verbatim>\<open>fock\<close> handed to the
  fragments, and in \<open>'st\<close> everything else. One pass of the body: the parameter \<open>pre\<close>
  (the loop over the fragments, \<^verbatim>\<open>_build_se_from_moments\<close>, \<^verbatim>\<open>_combine_se\<close> and, from
  the second iteration on, \<^verbatim>\<open>run_diis\<close>) gives the new \<^verbatim>\<open>solver.se\<close> or raises; then the
  Dyson equation is solved with the mean-field Fock matrix \<^verbatim>\<open>fock_mo\<close>, the Green's
  function is formed with the default chemical potential zero, and
  \<^verbatim>\<open>fock_loop(fock=fock_mo, return_fock=True)\<close> is unpacked into four targets; the
  Green's function is pruned at \<^verbatim>\<open>1e-12\<close>, and the parameter \<open>post\<close> (energies,
  \<^verbatim>\<open>_convergence_checks\<close>) gives the three deltas or raises.
\<close>

type_synonym 'st eagf2_state = "greens_function option \<times> self_energy \<times> matrix \<times> 'st"

definition EAGF2_iteration ::
  "'h collaborators \<Rightarrow> solver \<Rightarrow>
   (nat \<Rightarrow> self_energy \<Rightarrow> matrix \<Rightarrow> 'st \<Rightarrow> py_exn + (self_energy \<times> 'st)) \<Rightarrow>
   (nat \<Rightarrow> self_energy \<Rightarrow> greens_function \<Rightarrow> self_energy \<Rightarrow> 'st \<Rightarrow> py_exn + ('st \<times> deltas)) \<Rightarrow>
   matrix \<Rightarrow> nat \<Rightarrow> 'st eagf2_state \<Rightarrow> py_exn + ('st eagf2_state \<times> deltas)" where
  "EAGF2_iteration env self pre post fock_mo niter st =
     (case st of (gf, se, fock, s) \<Rightarrow>
        (case pre niter se fock s of
           Inl e \<Rightarrow> Inl e
         | Inr (se1, s1) \<Rightarrow>
             (case solve_dyson env se1 fock_mo of
                Inl e \<Rightarrow> Inl e
              | Inr (w, v) \<Rightarrow>
                  (case RAGF2_fock_loop env self
                          \<lparr> energy = w, coupling = take (nact self) v, chempot = 0 \<rparr>
                          se1 (Some fock_mo) True True of
                     Inl e \<Rightarrow> Inl e
                   | Inr ret \<Rightarrow>
                       (case unpack4 ret of
                          Inl e \<Rightarrow> Inl e
                        | Inr (gf2, se2, fconv, fock2) \<Rightarrow>
                            (let gf3 = remove_uncoupled (1 / 10 ^ 12) gf2
                             in case post niter se gf3 se2 s1 of
                                  Inl e \<Rightarrow> Inl e
                                | Inr (s2, d) \<Rightarrow> Inr ((Some gf3, se2, fock2, s2), d)))))))"

text \<open>
  The loop of \<^verbatim>\<open>EAGF2.kernel\<close>, \<^verbatim>\<open>for niter in range(0, max_cycle+1)\<close>: it sets
  \<^verbatim>\<open>converged\<close> and breaks as soon as the deltas of an iteration meet the tolerances.
\<close>

fun EAGF2_loop ::
  "RAGF2Options \<Rightarrow> (nat \<Rightarrow> 'st \<Rightarrow> py_exn + ('st \<times> deltas)) \<Rightarrow> nat list \<Rightarrow> 'st \<Rightarrow> bool list \<Rightarrow>
   py_exn + 'st outcome" where
  "EAGF2_loop options iteration [] s cs = Inr \<lparr> final = s, converged = False, checks = cs \<rparr>"
| "EAGF2_loop options iteration (niter # rest) s cs =
     (case iteration niter s of
        Inl e \<Rightarrow> Inl e
      | Inr (s', d) \<Rightarrow>
          if deltas_ok options d
          then Inr \<lparr> final = s', converged = True, checks = cs @ [True] \<rparr>
          else EAGF2_loop options iteration rest s' (cs @ [False]))"

text \<open>The self-energy without poles that \<^verbatim>\<open>EAGF2.kernel\<close> starts from.\<close>

definition empty_se :: "nat \<Rightarrow> self_energy" where
  "empty_se n = \<lparr> energy = [], coupling = replicate n [], chempot = 0 \<rparr>"

text \<open>
  \<^verbatim>\<open>EAGF2.kernel\<close> for \<open>nfrag\<close> fragments: the guard against a calculation without
  fragments, the loop, and after it the second pruning of \<^verbatim>\<open>solver.gf\<close>, which would
  raise \<^verbatim>\<open>AttributeError\<close> on \<^verbatim>\<open>None\<close>.
\<close>

definition EAGF2_kernel ::
  "'h collaborators \<Rightarrow> solver \<Rightarrow> nat \<Rightarrow>
   (nat \<Rightarrow> self_energy \<Rightarrow> matrix \<Rightarrow> 'st \<Rightarrow> py_exn + (self_energy \<times> 'st)) \<Rightarrow>
   (nat \<Rightarrow> self_energy \<Rightarrow> greens_function \<Rightarrow> self_energy \<Rightarrow> 'st \<Rightarrow> py_exn + ('st \<times> deltas)) \<Rightarrow>
   matrix \<Rightarrow> 'st \<Rightarrow> py_exn + 'st eagf2_state outcome" where
  "EAGF2_kernel env self nfrag pre post fock_mo s =
     (if nfrag = 0 then Inl ValueError
      else
        (case EAGF2_loop (opts self) (EAGF2_iteration env self pre post fock_mo)
                [0..<max_cycle (opts self) + 1] (None, empty_se (nact self), fock_mo, s) [] of
           Inl e \<Rightarrow> Inl e
         | Inr out \<Rightarrow>
             (case final out of
                (None, se, fock, s') \<Rightarrow> Inl AttributeError
              | (Some gf, se, fock, s') \<Rightarrow>
                  Inr (out\<lparr> final := (Some (remove_uncoupled (1 / 10 ^ 12) gf), se, fock, s') \<rparr>))))"

section \<open>Example inputs\<close>

text \<open>
  Collaborators for running the models on concrete inputs: every eigendecomposition has the
  eigenvalues \<open>-1\<close> and \<open>1\<close>, the DIIS library fails with \<^verbatim>\<open>LinAlgError\<close> on every call (a
  singular subspace), the chemical-potential searches return zero, and the remaining
  routines return fixed arrays.
\<close>

definition example_env :: "nat collaborators" where
  "example_env =
     \<lparr> eigh = (\<lambda>m. ([- 1, 1], m)),
       binsearch_chempot = (\<lambda>wv n ne. (0, 0)),
       minimize_chempot = (\<lambda>se fock ne x0 tol maxiter. se),
       get_fock = (\<lambda>gf. [[1]]),
       make_rdm1 = (\<lambda>gf. [[2]]),
       max_abs_diff = (\<lambda>a b. 0),
       new_diis = (\<lambda>space min_space. 0),
       lib_diis_update = (\<lambda>h x. (Inl LinAlgError, Suc h)),
       compress = (\<lambda>n fock se. se),
       moments_eigh = (\<lambda>t eps. ([], [[]])),
       moments_block_lanczos = (\<lambda>t. ([], [[]])) \<rparr>"

text \<open>
  The same collaborators with the eigendecomposition of a matrix of one row and one
  column: its entry is the eigenvalue.
\<close>

definition scalar_env :: "nat collaborators" where
  "scalar_env = example_env\<lparr> eigh := (\<lambda>m. ([Re (m ! 0 ! 0)], [[1]])) \<rparr>"

definition example_solver :: solver where
  "example_solver = \<lparr> opts = default_options, nact = 1, nocc = 1, frozen = (0, 0) \<rparr>"

definition example_gf :: greens_function where
  "example_gf = \<lparr> energy = [0], coupling = [[1]], chempot = 0 \<rparr>"

definition example_se :: self_energy where
  "example_se = \<lparr> energy = [- 1, 1], coupling = [[\<i>, 2]], chempot = 0 \<rparr>"

definition example_se_occ :: self_energy where
  "example_se_occ = \<lparr> energy = [- 1], coupling = [[1]], chempot = 0 \<rparr>"

definition example_se_vir :: self_energy where
  "example_se_vir = \<lparr> energy = [1], coupling = [[2]], chempot = 0 \<rparr>"

text \<open>An occupied self-energy whose only pole has a zero coupling vector.\<close>

definition uncoupled_se_occ :: self_energy where
  "uncoupled_se_occ = \<lparr> energy = [- 1], coupling = [[0]], chempot = 0 \<rparr>"


definition example_pre ::
  "nat \<Rightarrow> self_energy \<Rightarrow> matrix \<Rightarrow> unit \<Rightarrow> py_exn + (self_energy \<times> unit)" where
  "example_pre niter se fock s = Inr (example_se, s)"

definition example_post_embedded ::
  "nat \<Rightarrow> self_energy \<Rightarrow> greens_function \<Rightarrow> self_energy \<Rightarrow> unit \<Rightarrow> py_exn + (unit \<times> deltas)" where
  "example_post_embedded niter se_prev gf se s = Inr (s, (if niter = 0 then 1 else 0, 0, 0))"

section \<open>Properties of auxiliary spaces\<close>

lemma naux_select_poles: "naux (select_poles ks a) = length ks"
  by (simp add: naux_def select_poles_def)

lemma chempot_select_poles: "chempot (select_poles ks a) = chempot a"
  by (simp add: select_poles_def)

lemma pole_select_poles: "k < length ks \<Longrightarrow> pole (select_poles ks a) k = pole a (ks ! k)"
  by (simp add: pole_def select_poles_def column_def)

lemma poles_select_poles: "poles (select_poles ks a) = map (pole a) ks"
proof -
  have "map (pole (select_poles ks a)) [0..<length ks] = map (\<lambda>k. pole a (ks ! k)) [0..<length ks]"
    by (rule map_cong) (simp_all add: pole_select_poles)
  also have "\<dots> = map (pole a) (map (\<lambda>k. ks ! k) [0..<length ks])"
    by (simp add: comp_def)
  also have "\<dots> = map (pole a) ks"
    by (simp only: map_nth)
  finally show ?thesis by (simp add: poles_def naux_select_poles)
qed

lemma select_poles_all: 
  assumes "\<forall>r \<in> set (coupling a). length r = naux a"
  shows "select_poles [0..<naux a] a = a"
proof -
  have "map (\<lambda>j. energy a ! j) [0..<naux a] = energy a"
    by (simp add: naux_def map_nth)
  moreover have "map (\<lambda>r. map (\<lambda>j. r ! j) [0..<naux a]) (coupling a) = coupling a"
    using assms by (simp add: map_idI map_nth list_eq_iff_nth_eq)
  ultimately show ?thesis by (simp add: select_poles_def)
qed

lemma rows_select_poles: "\<forall>r \<in> set (coupling (select_poles ks a)). length r = naux (select_poles ks a)"
  by (auto simp: select_poles_def naux_def)

lemma filter_upt_all: "(\<forall>j<n. P j) \<Longrightarrow> filter P [0..<n] = [0..<n]"
  by (simp add: filter_id_conv)

lemma column_select: "k < length ks \<Longrightarrow> column (coupling (select_poles ks a)) k = column (coupling a) (ks ! k)"
  by (simp add: column_def select_poles_def)

lemma remove_uncoupled_idem: "remove_uncoupled tol (remove_uncoupled tol a) = remove_uncoupled tol a"
proof -
  define ks where "ks = filter (\<lambda>j. \<not> norm_sq (column (coupling a) j) < tol) [0..<naux a]"
  define b where "b = select_poles ks a"
  have b: "remove_uncoupled tol a = b" by (simp add: remove_uncoupled_def ks_def b_def)
  have kept: "\<forall>k<length ks. \<not> norm_sq (column (coupling a) (ks ! k)) < tol"
  proof (intro allI impI)
    fix k assume "k < length ks"
    then have "ks ! k \<in> set ks" by simp
    then show "\<not> norm_sq (column (coupling a) (ks ! k)) < tol" unfolding ks_def by simp
  qed
  have "filter (\<lambda>j. \<not> norm_sq (column (coupling b) j) < tol) [0..<naux b] = [0..<naux b]"
    by (rule filter_upt_all) (simp add: b_def naux_select_poles column_select kept)
  then have "remove_uncoupled tol b = select_poles [0..<naux b] b"
    by (simp add: remove_uncoupled_def)
  also have "\<dots> = b" by (rule select_poles_all) (simp add: b_def rows_select_poles)
  finally show ?thesis by (simp add: b)
qed

lemma poles_filter_index:
  "map (pole a) (filter (\<lambda>j. Q (pole a j)) [0..<naux a]) = filter Q (poles a)"
  by (simp add: poles_def filter_map comp_def)

lemma poles_remove_uncoupled:
  "poles (remove_uncoupled tol a) = filter (\<lambda>p. \<not> norm_sq (snd p) < tol) (poles a)"
proof -
  have "poles (remove_uncoupled tol a) =
        map (pole a) (filter (\<lambda>j. \<not> norm_sq (snd (pole a j)) < tol) [0..<naux a])"
    by (simp add: remove_uncoupled_def poles_select_poles pole_def)
  also have "\<dots> = filter (\<lambda>p. \<not> norm_sq (snd p) < tol) (poles a)"
    by (rule poles_filter_index [of a "\<lambda>p. \<not> norm_sq (snd p) < tol"])
  finally show ?thesis .
qed

lemma poles_get_occupied:
  "poles (get_occupied a) = filter (\<lambda>p. fst p < chempot a) (poles a)"
proof -
  have "poles (get_occupied a) =
        map (pole a) (filter (\<lambda>j. fst (pole a j) < chempot a) [0..<naux a])"
    by (simp add: get_occupied_def poles_select_poles pole_def)
  also have "\<dots> = filter (\<lambda>p. fst p < chempot a) (poles a)"
    by (rule poles_filter_index [of a "\<lambda>p. fst p < chempot a"])
  finally show ?thesis .
qed

lemma poles_get_virtual:
  "poles (get_virtual a) = filter (\<lambda>p. chempot a \<le> fst p) (poles a)"
proof -
  have "poles (get_virtual a) =
        map (pole a) (filter (\<lambda>j. chempot a \<le> fst (pole a j)) [0..<naux a])"
    by (simp add: get_virtual_def poles_select_poles pole_def)
  also have "\<dots> = filter (\<lambda>p. chempot a \<le> fst p) (poles a)"
    by (rule poles_filter_index [of a "\<lambda>p. chempot a \<le> fst p"])
  finally show ?thesis .
qed

lemma chempot_remove_uncoupled: "chempot (remove_uncoupled tol a) = chempot a"
  by (simp add: remove_uncoupled_def chempot_select_poles)

lemma column_map2_append_left:
  assumes "\<forall>r \<in> set A. j < length r"
  shows "column (map2 (@) A B) j = column (take (length B) A) j"
  using assms
proof (induction A arbitrary: B)
  case Nil then show ?case by (simp add: column_def)
next
  case (Cons r A)
  then show ?case by (cases B) (simp_all add: column_def nth_append)
qed

lemma column_map2_append_right:
  assumes "\<forall>r \<in> set A. length r = n"
  shows "column (map2 (@) A B) (n + j) = column (take (length A) B) j"
  using assms
proof (induction A arbitrary: B)
  case Nil then show ?case by (simp add: column_def)
next
  case (Cons r A)
  then show ?case by (cases B) (simp_all add: column_def nth_append)
qed

lemma upt_shift: "[n..<n + m] = map (\<lambda>j. n + j) [0..<m]"
  by (induction m) simp_all

lemma poles_combine:
  assumes rows: "\<forall>r \<in> set (coupling a). length r = naux a"
      and nphys: "length (coupling a) = length (coupling b)"
  shows "poles (combine a b) = poles a @ poles b"
proof -
  have left: "pole (combine a b) j = pole a j" if "j < naux a" for j
    using that rows nphys
    by (simp add: pole_def combine_def nth_append naux_def column_map2_append_left)
  have right: "pole (combine a b) (naux a + j) = pole b j" for j
    using rows nphys
    by (simp add: pole_def combine_def nth_append naux_def column_map2_append_right)
  have n: "naux (combine a b) = naux a + naux b"
    by (simp add: naux_def combine_def)
  have "[0..<naux a + naux b] = [0..<naux a] @ [naux a..<naux a + naux b]"
    using upt_add_eq_append [of 0 "naux a" "naux b"] by simp
  then have "[0..<naux a + naux b] = [0..<naux a] @ map (\<lambda>j. naux a + j) [0..<naux b]"
    by (simp only: upt_shift)
  then have "poles (combine a b) =
        map (pole (combine a b)) [0..<naux a] @ map (\<lambda>j. pole (combine a b) (naux a + j)) [0..<naux b]"
    by (simp add: poles_def n comp_def)
  also have "map (pole (combine a b)) [0..<naux a] = poles a"
    unfolding poles_def by (rule map_cong) (simp_all add: left)
  also have "map (\<lambda>j. pole (combine a b) (naux a + j)) [0..<naux b] = poles b"
    by (simp add: right poles_def)
  finally show ?thesis .
qed

lemma fst_poles: "map fst (poles a) = energy a"
proof -
  have "map fst (poles a) = map (\<lambda>j. energy a ! j) [0..<length (energy a)]"
    by (simp add: poles_def pole_def comp_def naux_def)
  then show ?thesis by (simp only: map_nth)
qed

lemma fst_pole_mem: "p \<in> set (poles a) \<Longrightarrow> fst p \<in> set (energy a)"
proof -
  assume "p \<in> set (poles a)"
  then have "fst p \<in> set (map fst (poles a))" by simp
  then show ?thesis by (simp only: fst_poles)
qed

lemma poles_combine_se:
  assumes "nmom_projection (opts self) = None"
      and "\<forall>r \<in> set (coupling a). length r = naux a"
      and "length (coupling a) = length (coupling b)"
  shows "poles (combine_se env self g a b gf) =
         filter (\<lambda>p. \<not> norm_sq (snd p) < weight_tol (opts self)) (poles a @ poles b)"
    and "chempot (combine_se env self g a b gf) = chempot a"
  using assms
  by (simp_all add: combine_se_def poles_remove_uncoupled poles_combine chempot_remove_uncoupled)
     (simp add: combine_def)

lemma split_combine_se:
  assumes proj: "nmom_projection (opts self) = None"
      and rows: "\<forall>r \<in> set (coupling a). length r = naux a"
      and nphys: "length (coupling a) = length (coupling b)"
      and occ: "\<forall>e \<in> set (energy a). e < chempot a"
      and vir: "\<forall>e \<in> set (energy b). chempot a \<le> e"
  shows "poles (get_occupied (combine_se env self g a b gf)) =
           poles (remove_uncoupled (weight_tol (opts self)) a)"
    and "poles (get_virtual (combine_se env self g a b gf)) =
           poles (remove_uncoupled (weight_tol (opts self)) b)"
proof -
  let ?W = "\<lambda>p. \<not> norm_sq (snd p) < weight_tol (opts self)"
  have A: "\<forall>p \<in> set (filter ?W (poles a)). fst p < chempot a"
    using occ fst_pole_mem by fastforce
  have B: "\<forall>p \<in> set (filter ?W (poles b)). chempot a \<le> fst p"
    using vir fst_pole_mem by fastforce
  have B': "\<forall>p \<in> set (filter ?W (poles b)). \<not> fst p < chempot a"
    using B by fastforce
  have A': "\<forall>p \<in> set (filter ?W (poles a)). \<not> chempot a \<le> fst p"
    using A by fastforce
  have o1: "filter (\<lambda>p. fst p < chempot a) (filter ?W (poles a)) = filter ?W (poles a)"
    using A by (simp only: filter_id_conv)
  have o2: "filter (\<lambda>p. fst p < chempot a) (filter ?W (poles b)) = []"
    using B' unfolding filter_empty_conv by blast
  have v1: "filter (\<lambda>p. chempot a \<le> fst p) (filter ?W (poles a)) = []"
    using A' unfolding filter_empty_conv by blast
  have v2: "filter (\<lambda>p. chempot a \<le> fst p) (filter ?W (poles b)) = filter ?W (poles b)"
    using B by (simp only: filter_id_conv)
  have pc: "poles (combine_se env self g a b gf) = filter ?W (poles a) @ filter ?W (poles b)"
    using poles_combine_se(1) [OF proj rows nphys] by simp
  have mu: "chempot (combine_se env self g a b gf) = chempot a"
    by (rule poles_combine_se(2) [OF proj rows nphys])
  show "poles (get_occupied (combine_se env self g a b gf)) =
           poles (remove_uncoupled (weight_tol (opts self)) a)"
    by (simp only: poles_get_occupied poles_remove_uncoupled pc mu filter_append o1 o2 append_Nil2)
  show "poles (get_virtual (combine_se env self g a b gf)) =
           poles (remove_uncoupled (weight_tol (opts self)) b)"
    by (simp only: poles_get_virtual poles_remove_uncoupled pc mu filter_append v1 v2 append_Nil)
qed

lemma poles_pruned:
  assumes "list_all (\<lambda>p. \<not> norm_sq (snd p) < tol) (poles a)"
  shows "poles (remove_uncoupled tol a) = poles a"
  using assms by (simp add: poles_remove_uncoupled list_all_iff filter_id_conv)

section \<open>Properties of the augmented matrix\<close>

lemma length_f_ext:
  assumes "length (coupling se) = length fock"
  shows "length (f_ext se fock) = length fock + length (energy se)"
  using assms by (simp add: f_ext_def Let_def np_block_def conj_T_def np_diag_def)

lemma f_ext_upper:
  assumes nv: "length (coupling se) = length fock"
      and i: "i < length fock"
  shows "f_ext se fock ! i = fock ! i @ coupling se ! i"
  using assms by (simp add: f_ext_def Let_def np_block_def nth_append)

lemma f_ext_lower:
  assumes nv: "length (coupling se) = length fock"
      and i: "i < length (energy se)"
  shows "f_ext se fock ! (length fock + i) =
         map cnj (column (coupling se) i) @
         map (\<lambda>j. if i = j then complex_of_real (energy se ! i) else 0) [0..<length (energy se)]"
  using assms by (simp add: f_ext_def Let_def np_block_def nth_append conj_T_def np_diag_def)

lemma f_ext_entries:
  assumes nv: "length (coupling se) = length fock"
      and sq: "list_all (\<lambda>r. length r = length fock) fock"
      and rv: "list_all (\<lambda>r. length r = length (energy se)) (coupling se)"
      and i: "i < length fock + length (energy se)"
  shows "length (f_ext se fock ! i) = length fock + length (energy se)"
    and "j < length fock + length (energy se) \<Longrightarrow>
         f_ext se fock ! i ! j = augmented_entry fock (coupling se) (energy se) i j"
proof -
  let ?n = "length fock" and ?m = "length (energy se)"
  show "length (f_ext se fock ! i) = ?n + ?m"
  proof (cases "i < ?n")
    case True
    then have "length (fock ! i) = ?n" "length (coupling se ! i) = ?m"
      using sq rv nv by (simp_all add: list_all_length)
    then show ?thesis using True nv by (simp add: f_ext_upper)
  next
    case False
    then obtain k where k: "i = ?n + k" "k < ?m" using i by (metis add_diff_inverse_nat nat_add_left_cancel_less)
    show ?thesis using k nv by (simp add: f_ext_lower column_def)
  qed
  assume j: "j < ?n + ?m"
  show "f_ext se fock ! i ! j = augmented_entry fock (coupling se) (energy se) i j"
  proof (cases "i < ?n")
    case True
    then have len: "length (fock ! i) = ?n"
      using sq by (simp add: list_all_length)
    show ?thesis using True nv len
      by (simp add: f_ext_upper augmented_entry_def nth_append)
  next
    case False
    then obtain k where k: "i = ?n + k" "k < ?m" using i by (metis add_diff_inverse_nat nat_add_left_cancel_less)
    show ?thesis
    proof (cases "j < ?n")
      case True
      then show ?thesis using k nv
        by (simp add: f_ext_lower augmented_entry_def nth_append column_def)
    next
      case False
      then obtain l where l: "j = ?n + l" "l < ?m" using j by (metis add_diff_inverse_nat nat_add_left_cancel_less)
      show ?thesis using k l nv
        by (simp add: f_ext_lower augmented_entry_def nth_append column_def)
    qed
  qed
qed

section \<open>Pruning and the round trip of a combined self-energy\<close>

text \<open>
  C5. Pruning of uncoupled poles is idempotent: removing the uncoupled poles of any
  auxiliary space twice at the same tolerance gives the same space as removing them once.
  In particular the self-energies returned by \<^verbatim>\<open>_build_se_from_moments\<close> and
  \<^verbatim>\<open>_combine_se\<close> are already pruned at \<^verbatim>\<open>weight_tol\<close>.
\<close>

theorem pruning_idempotent:
  "remove_uncoupled tol (remove_uncoupled tol a) = remove_uncoupled tol a \<and>
   remove_uncoupled (weight_tol (opts self)) (build_se_from_moments env self t mu eps) =
     build_se_from_moments env self t mu eps \<and>
   remove_uncoupled (weight_tol (opts self)) (combine_se env self self_gf se_occ se_vir gf) =
     combine_se env self self_gf se_occ se_vir gf"
  by (simp add: build_se_from_moments_def combine_se_def Let_def remove_uncoupled_idem
        split: prod.split)

text \<open>
  C6, as amended. Let \<open>se_occ\<close> and \<open>se_vir\<close> be self-energies over the same physical
  space and with the same chemical potential, all pole energies of \<open>se_occ\<close> strictly below
  it and all pole energies of \<open>se_vir\<close> at or above it, and let both be already pruned at
  \<^verbatim>\<open>weight_tol\<close> (as every self-energy built by \<^verbatim>\<open>_build_se_from_moments\<close> is). Then
  combining them with \<^verbatim>\<open>_combine_se\<close>, moment projection disabled, and splitting the
  result with \<^verbatim>\<open>get_occupied\<close> and \<^verbatim>\<open>get_virtual\<close> recovers the two original pole sets.
\<close>

theorem combine_se_roundtrip:
  assumes "nmom_projection (opts self) = None"
      and "list_all (\<lambda>r. length r = naux se_occ) (coupling se_occ)"
      and "length (coupling se_occ) = length (coupling se_vir)"
      and "chempot se_vir = chempot se_occ"
      and "list_all (\<lambda>e. e < chempot se_occ) (energy se_occ)"
      and "list_all (\<lambda>e. chempot se_vir \<le> e) (energy se_vir)"
      and "list_all (\<lambda>p. \<not> norm_sq (snd p) < weight_tol (opts self)) (poles se_occ)"
      and "list_all (\<lambda>p. \<not> norm_sq (snd p) < weight_tol (opts self)) (poles se_vir)"
  shows "set (poles (get_occupied (combine_se env self self_gf se_occ se_vir gf))) =
           set (poles se_occ) \<and>
         set (poles (get_virtual (combine_se env self self_gf se_occ se_vir gf))) =
           set (poles se_vir)"
proof -
  have rows: "\<forall>r \<in> set (coupling se_occ). length r = naux se_occ"
    using assms(2) by (simp add: list_all_iff)
  have occ: "\<forall>e \<in> set (energy se_occ). e < chempot se_occ"
    using assms(5) by (simp add: list_all_iff)
  have vir: "\<forall>e \<in> set (energy se_vir). chempot se_occ \<le> e"
    using assms(4,6) by (simp add: list_all_iff)
  show ?thesis
    by (simp only: split_combine_se [OF assms(1) rows assms(3) occ vir]
          poles_pruned [OF assms(7)] poles_pruned [OF assms(8)])
qed

theorem combine_se_roundtrip_witness:
  "set (poles (get_occupied
          (combine_se example_env example_solver example_gf example_se_occ example_se_vir None))) =
     set (poles example_se_occ) \<and>
   set (poles (get_virtual
          (combine_se example_env example_solver example_gf example_se_occ example_se_vir None))) =
     set (poles example_se_vir)"
  using combine_se_roundtrip [of example_solver example_se_occ example_se_vir
          example_env example_gf None]
  by (simp add: example_solver_def default_options_def example_se_occ_def example_se_vir_def
        poles_def naux_def pole_def column_def norm_sq_def)

text \<open>
  The claim as stated, for every pair of self-energies on the two sides of the chemical
  potential, fails: \<^verbatim>\<open>_combine_se\<close> prunes what it has concatenated, so a pole with a zero
  coupling vector does not come back. Here the premises of the claim hold and the occupied
  part of the combined self-energy has no pole, while the original has one.
\<close>

theorem combine_se_roundtrip_counterexample:
  "nmom_projection (opts example_solver) = None \<and>
   list_all (\<lambda>e. e < chempot uncoupled_se_occ) (energy uncoupled_se_occ) \<and>
   list_all (\<lambda>e. chempot uncoupled_se_occ \<le> e) (energy example_se_vir) \<and>
   poles uncoupled_se_occ = [(- 1, [0])] \<and>
   poles (get_occupied
     (combine_se example_env example_solver example_gf uncoupled_se_occ example_se_vir None)) = [] \<and>
   set (poles (get_occupied
     (combine_se example_env example_solver example_gf uncoupled_se_occ example_se_vir None))) \<noteq>
     set (poles uncoupled_se_occ)"
proof -
  have p: "poles uncoupled_se_occ = [(- 1, [0])]"
    by (simp add: uncoupled_se_occ_def poles_def naux_def pole_def column_def)
  have "poles (get_occupied
     (combine_se example_env example_solver example_gf uncoupled_se_occ example_se_vir None)) =
     poles (remove_uncoupled (weight_tol (opts example_solver)) uncoupled_se_occ)"
    by (rule split_combine_se(1))
       (simp_all add: example_solver_def default_options_def uncoupled_se_occ_def
          example_se_vir_def naux_def)
  also have "\<dots> = []"
    by (simp add: poles_remove_uncoupled p norm_sq_def example_solver_def default_options_def)
  finally show ?thesis
    by (simp add: p) (simp add: example_solver_def default_options_def uncoupled_se_occ_def
          example_se_vir_def)
qed

section \<open>The Dyson equation\<close>

lemma solve_dyson_raises: "solve_dyson env se fock = Inl e \<Longrightarrow> e = ValueError"
  by (auto simp: solve_dyson_def split: prod.splits if_splits)

lemma solve_dyson_returns:
  assumes "solve_dyson env se fock = Inr wv"
  shows "wv = eigh env (f_ext se fock) \<and>
         filter (\<lambda>x. x < chempot se) (fst wv) \<noteq> [] \<and>
         filter (\<lambda>x. chempot se \<le> x) (fst wv) \<noteq> []"
proof -
  obtain w v where e: "eigh env (f_ext se fock) = (w, v)"
    by (cases "eigh env (f_ext se fock)")
  show ?thesis
    using assms by (auto simp: solve_dyson_def e split: if_splits)
qed

lemma solve_dyson_two_sided:
  assumes "filter (\<lambda>x. x < chempot se) (fst (eigh env (f_ext se fock))) \<noteq> []"
      and "filter (\<lambda>x. chempot se \<le> x) (fst (eigh env (f_ext se fock))) \<noteq> []"
  shows "solve_dyson env se fock = Inr (eigh env (f_ext se fock))"
  using assms by (cases "eigh env (f_ext se fock)") (simp add: solve_dyson_def)

text \<open>
  When \<^verbatim>\<open>solve_dyson\<close> returns, it returns the eigendecomposition, as
  \<^verbatim>\<open>np.linalg.eigh\<close> computes it, of the matrix it assembles, and for a Fock matrix of
  size \<open>n \<times> n\<close> and a self-energy with \<open>m\<close> poles coupled to \<open>n\<close> orbitals that matrix is
  the \<open>(n + m) \<times> (n + m)\<close> augmented matrix of the specification.
\<close>

lemma solve_dyson_augmented:
  assumes "length (coupling se) = length fock"
      and "list_all (\<lambda>r. length r = length fock) fock"
      and "list_all (\<lambda>r. length r = length (energy se)) (coupling se)"
  shows "(\<forall>wv. solve_dyson env se fock = Inr wv \<longrightarrow> wv = eigh env (f_ext se fock)) \<and>
         length (f_ext se fock) = length fock + length (energy se) \<and>
         (\<forall>i < length fock + length (energy se).
            length (f_ext se fock ! i) = length fock + length (energy se) \<and>
            (\<forall>j < length fock + length (energy se).
               f_ext se fock ! i ! j = augmented_entry fock (coupling se) (energy se) i j))"
  using length_f_ext [OF assms(1)] f_ext_entries [OF assms] solve_dyson_returns [of env se fock]
  by simp

lemma solve_dyson_example:
  "f_ext example_se [[3]] = [[3, \<i>, 2], [- \<i>, - 1, 0], [2, 0, 1]] \<and>
   solve_dyson example_env example_se [[3]] =
     Inr ([- 1, 1], [[3, \<i>, 2], [- \<i>, - 1, 0], [2, 0, 1]])"
  by (simp add: example_se_def example_env_def solve_dyson_def f_ext_def Let_def np_block_def
        conj_T_def np_diag_def column_def upt_rec [of 0] upt_rec [of 1])

text \<open>
  The Green's function formed in the inner loop has the eigenvalues as energies and the
  first \<^verbatim>\<open>nact\<close> rows of the eigenvectors as couplings.
\<close>

lemma inner_body_greens_function:
  assumes "inner_body env self st = Inr (st', derr)"
  shows "\<exists>w v. solve_dyson env (l_se st) (l_fock st) = Inr (w, v) \<and>
           energy (l_gf st') = w \<and> coupling (l_gf st') = take (nact self) v"
  using assms
  by (auto simp: inner_body_def Let_def split: prod.splits sum.splits)

text \<open>
  C4, at an input where \<^verbatim>\<open>solve_dyson\<close> departs from it: the Fock matrix with the single
  entry one and a self-energy without poles, at chemical potential zero. The augmented
  matrix is the Fock matrix, its only eigenvalue one is not below the chemical potential,
  and the call raises \<^verbatim>\<open>ValueError\<close> instead of returning the eigendecomposition. In
  general the call raises exactly when no eigenvalue lies below the chemical potential or
  none lies at or above it.
\<close>

theorem solve_dyson_one_sided:
  "f_ext (empty_se 1) [[1]] = [[1]] \<and>
   eigh scalar_env (f_ext (empty_se 1) [[1]]) = ([1], [[1]]) \<and>
   solve_dyson scalar_env (empty_se 1) [[1]] = Inl ValueError \<and>
   (solve_dyson env se fock = Inl ValueError) =
     (filter (\<lambda>x. x < chempot se) (fst (eigh env (f_ext se fock))) = [] \<or>
      filter (\<lambda>x. chempot se \<le> x) (fst (eigh env (f_ext se fock))) = [])"
proof -
  have f: "f_ext (empty_se 1) [[1]] = [[1]]"
    by (simp add: empty_se_def f_ext_def Let_def np_block_def conj_T_def np_diag_def)
  have e: "eigh scalar_env [[1]] = ([1], [[1]])"
    by (simp add: scalar_env_def)
  have s: "solve_dyson scalar_env (empty_se 1) [[1]] = Inl ValueError"
    by (simp add: solve_dyson_def empty_se_def f_ext_def Let_def np_block_def conj_T_def
          np_diag_def scalar_env_def)
  have g: "(solve_dyson env se fock = Inl ValueError) =
     (filter (\<lambda>x. x < chempot se) (fst (eigh env (f_ext se fock))) = [] \<or>
      filter (\<lambda>x. chempot se \<le> x) (fst (eigh env (f_ext se fock))) = [])"
    by (cases "eigh env (f_ext se fock)") (simp add: solve_dyson_def)
  show ?thesis using f e s g by simp
qed

section \<open>The spin-scaling factors of the moment builder\<close>

text \<open>
  C10. A factor of exactly zero passed to \<^verbatim>\<open>_build_moments\<close> is discarded and the
  configured option is used in its place: with a zero \<^verbatim>\<open>os_factor\<close> the contraction
  that runs (PySCF's for density-fitted or for dense integrals, or the explicit loop) is
  called with the configured \<^verbatim>\<open>os_factor\<close>, and with a zero \<^verbatim>\<open>ss_factor\<close> with the
  configured \<^verbatim>\<open>ss_factor\<close>; the other factor is the one passed, or the configured one when
  none or zero is passed. So the call is the same as with the factor not passed, and the
  factor that reaches the contraction is zero only when the configured option is zero.
\<close>

theorem build_moments_zero_factor:
  "build_moments incore_df incore_4c accumulate self eo ev xija (Some 0) ss_arg =
     (if nmom_lanczos (opts self) = 0 \<and> \<not> diagonal_se (opts self) then
        (case xija of
           Inl (qxi, qja) \<Rightarrow>
             incore_df qxi qja eo ev (os_factor (opts self))
               (py_or ss_arg (ss_factor (opts self)))
         | Inr x \<Rightarrow>
             incore_4c x eo ev (os_factor (opts self)) (py_or ss_arg (ss_factor (opts self))))
      else accumulate (nmom_lanczos (opts self)) (diagonal_se (opts self))
             (os_factor (opts self) + py_or ss_arg (ss_factor (opts self)))
             (- py_or ss_arg (ss_factor (opts self))) eo ev xija) \<and>
   build_moments incore_df incore_4c accumulate self eo ev xija os_arg (Some 0) =
     (if nmom_lanczos (opts self) = 0 \<and> \<not> diagonal_se (opts self) then
        (case xija of
           Inl (qxi, qja) \<Rightarrow>
             incore_df qxi qja eo ev (py_or os_arg (os_factor (opts self)))
               (ss_factor (opts self))
         | Inr x \<Rightarrow>
             incore_4c x eo ev (py_or os_arg (os_factor (opts self))) (ss_factor (opts self)))
      else accumulate (nmom_lanczos (opts self)) (diagonal_se (opts self))
             (py_or os_arg (os_factor (opts self)) + ss_factor (opts self))
             (- ss_factor (opts self)) eo ev xija) \<and>
   py_or None d = d \<and> py_or (Some 0) d = d \<and>
   (py_or x d = 0) = (d = 0 \<and> (x = None \<or> x = Some 0)) \<and>
   build_moments incore_df incore_4c accumulate self eo ev xija (Some 0) ss_arg =
     build_moments incore_df incore_4c accumulate self eo ev xija None ss_arg \<and>
   build_moments incore_df incore_4c accumulate self eo ev xija os_arg (Some 0) =
     build_moments incore_df incore_4c accumulate self eo ev xija os_arg None"
proof -
  have zero: "(py_or x d = 0) = (d = 0 \<and> (x = None \<or> x = Some 0))"
    by (cases x) (auto simp: py_or_def)
  have some: "\<And>y. py_or (Some 0) y = y" and none: "\<And>y. py_or None y = y"
    by (simp_all add: py_or_def)
  show ?thesis
    using zero by (simp add: build_moments_def Let_def some none)
qed

section \<open>The guard around DIIS\<close>

lemma DIIS_update_not_LinAlgError: "fst (DIIS_update base h x) \<noteq> Inl LinAlgError"
  by (simp add: DIIS_update_def split: prod.split sum.split py_exn.split)

lemma DIIS_update_result: "DIIS_update base h x = (r, h') \<Longrightarrow> r \<noteq> Inl LinAlgError"
  using DIIS_update_not_LinAlgError [of base h x] by auto

lemma inner_body_not_LinAlgError: "inner_body env self st \<noteq> Inl LinAlgError"
  by (auto simp: inner_body_def Let_def split: prod.splits sum.splits
        dest: DIIS_update_result solve_dyson_raises)

lemma inner_loop_not_LinAlgError: "inner_loop env self n st \<noteq> Inl LinAlgError"
proof (induction n arbitrary: st)
  case 0
  show ?case by simp
next
  case (Suc n)
  show ?case
    using Suc inner_body_not_LinAlgError [of env self st]
    by (auto split: sum.splits prod.splits)
qed

lemma outer_body_not_LinAlgError: "outer_body env self st \<noteq> Inl LinAlgError"
  using inner_loop_not_LinAlgError [of env self]
  by (auto simp: outer_body_def Let_def split: sum.splits option.splits prod.splits)

lemma outer_loop_not_LinAlgError: "outer_loop env self n st \<noteq> Inl LinAlgError"
proof (induction n arbitrary: st)
  case 0
  show ?case by simp
next
  case (Suc n)
  show ?case
    using Suc outer_body_not_LinAlgError [of env self st]
    by (auto split: sum.splits prod.splits)
qed

lemma fock_loop_not_LinAlgError:
  "RAGF2_fock_loop env self gf se fock_arg project_gf return_fock \<noteq> Inl LinAlgError"
  using outer_loop_not_LinAlgError [of env self]
  by (auto simp: RAGF2_fock_loop_def Let_def split: sum.splits option.splits prod.splits
        dest: solve_dyson_raises)

text \<open>
  C9. \<^verbatim>\<open>DIIS.update\<close> never lets a \<^verbatim>\<open>LinAlgError\<close> out: when the library's update
  raises it, the guarded update returns its input unchanged, and when the library returns
  an array, that array is returned. Hence the Fock loop, which extrapolates through the
  guarded update, never ends in a \<^verbatim>\<open>LinAlgError\<close>.
\<close>

theorem DIIS_update_guard:
  "fst (DIIS_update base h x) \<noteq> Inl LinAlgError \<and>
   (fst (base h x) = Inl LinAlgError \<longrightarrow> fst (DIIS_update base h x) = Inr x) \<and>
   (\<forall>y. fst (base h x) = Inr y \<longrightarrow> fst (DIIS_update base h x) = Inr y) \<and>
   RAGF2_fock_loop env self gf se fock_arg project_gf return_fock \<noteq> Inl LinAlgError"
  using fock_loop_not_LinAlgError [of env self gf se fock_arg project_gf return_fock]
  by (auto simp: DIIS_update_def split: prod.splits sum.splits py_exn.splits)

theorem DIIS_update_guard_witness:
  "fst (lib_diis_update example_env 0 [[1]]) = Inl LinAlgError \<and>
   fst (DIIS_update (lib_diis_update example_env) 0 [[1]]) = Inr [[1]]"
  using DIIS_update_guard [of "lib_diis_update example_env" 0 "[[1]]" example_env
          example_solver example_gf example_se None True False]
  by (simp add: example_env_def)

section \<open>The Fock loop when it is switched off\<close>

text \<open>
  With the option \<^verbatim>\<open>fock_loop\<close> off, \<^verbatim>\<open>RAGF2.fock_loop\<close> makes one Dyson solve, on the
  Fock matrix passed or built from the Green's function; if the solve raises, so does the
  call, and otherwise one chemical-potential bisection follows and the call returns the
  eigensolution of that solve with the chemical potential of that bisection.
\<close>

lemma fock_loop_disabled:
  assumes "\<not> fock_loop (opts self)"
  shows "RAGF2_fock_loop env self gf se fock_arg project_gf return_fock =
         (case solve_dyson env se (resolve_fock env gf fock_arg) of
            Inl e \<Rightarrow> Inl e
          | Inr wv \<Rightarrow>
              (let mu = fst (binsearch_chempot env wv (nact self) (nelec self))
               in Inr \<lparr> ret_gf = \<lparr> energy = fst wv,
                                    coupling = (if project_gf then take (nact self) (snd wv)
                                                else snd wv),
                                    chempot = mu \<rparr>,
                        ret_se = se\<lparr> chempot := mu \<rparr>,
                        ret_converged = True, ret_fock = None \<rparr>))"
  using assms
  by (simp add: RAGF2_fock_loop_def Let_def split: prod.split sum.split)

text \<open>
  Nothing else takes part: with a Fock matrix passed, the result is the same whatever the
  Fock build, the density-matrix build, the chemical-potential minimisation and the DIIS
  library do, and whatever the damping, the cycle counts and the tolerances of the loop are.
\<close>

lemma fock_loop_disabled_independent:
  assumes "\<not> fock_loop (opts self)"
  shows "RAGF2_fock_loop
           (env\<lparr> get_fock := a, make_rdm1 := b, max_abs_diff := c, minimize_chempot := d,
                 new_diis := n, lib_diis_update := u \<rparr>)
           (self\<lparr> opts := (opts self)\<lparr> fock_damping := fd, max_cycle_outer := n1,
                                        max_cycle_inner := n2, conv_tol_rdm1 := t1,
                                        conv_tol_nelec := t2 \<rparr> \<rparr>)
           gf se (Some fock) project_gf return_fock =
         RAGF2_fock_loop env self gf se (Some fock) project_gf return_fock"
proof -
  let ?env = "env\<lparr> get_fock := a, make_rdm1 := b, max_abs_diff := c, minimize_chempot := d,
                   new_diis := n, lib_diis_update := u \<rparr>"
  let ?self = "self\<lparr> opts := (opts self)\<lparr> fock_damping := fd, max_cycle_outer := n1,
                                            max_cycle_inner := n2, conv_tol_rdm1 := t1,
                                            conv_tol_nelec := t2 \<rparr> \<rparr>"
  have off: "\<not> fock_loop (opts ?self)" using assms by simp
  have s: "solve_dyson ?env se fock = solve_dyson env se fock"
    by (simp add: solve_dyson_def)
  show ?thesis
    by (cases "solve_dyson env se fock")
       (simp_all add: fock_loop_disabled [OF assms] fock_loop_disabled [OF off]
          resolve_fock_def s nelec_def)
qed

text \<open>
  C7, at an input where \<^verbatim>\<open>fock_loop\<close> departs from it: with the option off, the Fock
  matrix with the single entry one and a self-energy without poles at chemical potential
  zero, the one Dyson solve raises \<^verbatim>\<open>ValueError\<close>; no bisection follows and the call
  does not return.
\<close>

theorem fock_loop_disabled_one_sided:
  "fock_loop (opts (example_solver\<lparr> opts := default_options\<lparr> fock_loop := False \<rparr> \<rparr>)) = False \<and>
   solve_dyson scalar_env (empty_se 1) [[1]] = Inl ValueError \<and>
   RAGF2_fock_loop scalar_env
     (example_solver\<lparr> opts := default_options\<lparr> fock_loop := False \<rparr> \<rparr>)
     example_gf (empty_se 1) (Some [[1]]) True False = Inl ValueError"
proof -
  have s: "solve_dyson scalar_env (empty_se 1) [[1]] = Inl ValueError"
    by (simp add: solve_dyson_def empty_se_def f_ext_def Let_def np_block_def conj_T_def
          np_diag_def scalar_env_def)
  have "RAGF2_fock_loop scalar_env
     (example_solver\<lparr> opts := default_options\<lparr> fock_loop := False \<rparr> \<rparr>)
     example_gf (empty_se 1) (Some [[1]]) True False = Inl ValueError"
    using s by (simp add: fock_loop_disabled resolve_fock_def)
  then show ?thesis using s by simp
qed

text \<open>
  C8. With the option \<^verbatim>\<open>fock_loop\<close> off, every flag that \<^verbatim>\<open>RAGF2.fock_loop\<close> returns
  is \<^verbatim>\<open>True\<close>: the call returns exactly when its Dyson solve does, it then returns
  \<^verbatim>\<open>True\<close>, and neither the outcome nor the values returned depend on the tolerances
  \<^verbatim>\<open>conv_tol_rdm1\<close> and \<^verbatim>\<open>conv_tol_nelec\<close>.
\<close>

theorem fock_loop_disabled_converged:
  assumes "\<not> fock_loop (opts self)"
  shows "(\<forall>ret. RAGF2_fock_loop env self gf se fock_arg project_gf return_fock = Inr ret \<longrightarrow>
            ret_converged ret) \<and>
         (\<exists>ret. RAGF2_fock_loop env self gf se fock_arg project_gf return_fock = Inr ret) =
           (\<exists>wv. solve_dyson env se (resolve_fock env gf fock_arg) = Inr wv) \<and>
         RAGF2_fock_loop env
           (self\<lparr> opts := (opts self)\<lparr> conv_tol_rdm1 := t1, conv_tol_nelec := t2 \<rparr> \<rparr>)
           gf se fock_arg project_gf return_fock =
         RAGF2_fock_loop env self gf se fock_arg project_gf return_fock"
proof -
  let ?self' = "self\<lparr> opts := (opts self)\<lparr> conv_tol_rdm1 := t1, conv_tol_nelec := t2 \<rparr> \<rparr>"
  have off: "\<not> fock_loop (opts ?self')" using assms by simp
  show ?thesis
    by (cases "solve_dyson env se (resolve_fock env gf fock_arg)")
       (simp_all add: fock_loop_disabled [OF assms] fock_loop_disabled [OF off] Let_def
          nelec_def)
qed

theorem fock_loop_disabled_converged_witness:
  "\<not> fock_loop (opts (example_solver\<lparr> opts := default_options\<lparr> fock_loop := False \<rparr> \<rparr>)) \<and>
   (\<exists>ret. RAGF2_fock_loop example_env
            (example_solver\<lparr> opts := default_options\<lparr> fock_loop := False \<rparr> \<rparr>)
            example_gf example_se None True False = Inr ret \<and> ret_converged ret)"
proof -
  let ?self = "example_solver\<lparr> opts := default_options\<lparr> fock_loop := False \<rparr> \<rparr>"
  have off: "\<not> fock_loop (opts ?self)" by simp
  have "\<exists>wv. solve_dyson example_env example_se (resolve_fock example_env example_gf None) = Inr wv"
    by (simp add: solve_dyson_def example_env_def example_se_def split: prod.split)
  then obtain ret where
    "RAGF2_fock_loop example_env ?self example_gf example_se None True False = Inr ret"
    using fock_loop_disabled_converged [OF off, of example_env example_gf example_se None True False]
    by blast
  then show ?thesis
    using fock_loop_disabled_converged [OF off, of example_env example_gf example_se None True False]
    by auto
qed

section \<open>The Fock loop when it is switched on\<close>

lemma inner_loop_positive:
  "0 < n \<Longrightarrow> inner_loop env self n st =
     (case inner_body env self st of
        Inl e \<Rightarrow> Inl e
      | Inr (st', derr) \<Rightarrow>
          if \<bar>derr\<bar> < conv_tol_rdm1 (opts self) then Inr st'
          else inner_loop env self (n - 1) st')"
  by (cases n) (simp_all split: sum.split prod.split)

lemma outer_loop_positive:
  "0 < n \<Longrightarrow> outer_loop env self n st =
     (case outer_body env self st of
        Inl e \<Rightarrow> Inl e
      | Inr (st', nerr, derr) \<Rightarrow>
          if cycle_converged self nerr derr then Inr (st', True)
          else outer_loop env self (n - 1) st')"
  by (cases n) (simp_all split: sum.split prod.split)

lemma outer_body_result:
  assumes "outer_body env self st = Inr (st', nerr, derr)"
  shows "\<exists>w v. l_inner st' = Some (w, v, nerr, derr)"
  using assms
  by (auto simp: outer_body_def Let_def split: sum.splits option.splits)

lemma outer_loop_result:
  assumes "outer_loop env self n st = Inr (st', c)"
  shows "(c \<longleftrightarrow> (\<exists>k<n. \<exists>s nerr derr. cycle_end env self k st = Inr (s, nerr, derr) \<and>
                              cycle_converged self nerr derr)) \<and>
         (if n = 0 then st' = st
          else \<exists>k<n. \<exists>w v nerr derr. cycle_end env self k st = Inr (st', nerr, derr) \<and>
                 l_inner st' = Some (w, v, nerr, derr) \<and>
                 (c \<or> k = n - 1))"
  using assms
proof (induction n arbitrary: st)
  case 0
  then show ?case by auto
next
  case (Suc n)
  obtain st1 nerr1 derr1 where b: "outer_body env self st = Inr (st1, nerr1, derr1)"
    using Suc.prems by (cases "outer_body env self st") auto
  obtain w1 v1 where i: "l_inner st1 = Some (w1, v1, nerr1, derr1)"
    using outer_body_result [OF b] by blast
  show ?case
  proof (cases "cycle_converged self nerr1 derr1")
    case True
    have e: "st' = st1" "c" using Suc.prems b True by simp_all
    have "cycle_end env self 0 st = Inr (st1, nerr1, derr1)" by (simp add: b)
    then have "\<exists>k<Suc n. \<exists>s nerr derr. cycle_end env self k st = Inr (s, nerr, derr) \<and>
                 cycle_converged self nerr derr"
      using True by blast
    moreover have "\<exists>k<Suc n. \<exists>w v nerr derr. cycle_end env self k st = Inr (st1, nerr, derr) \<and>
                     l_inner st1 = Some (w, v, nerr, derr) \<and> (True \<or> k = Suc n - 1)"
      using i b by (intro exI [of _ 0]) simp
    ultimately show ?thesis
      using e by simp
  next
    case False
    have o: "outer_loop env self n st1 = Inr (st', c)"
      using Suc.prems b False by simp
    have c: "c \<longleftrightarrow> (\<exists>k<n. \<exists>s nerr derr. cycle_end env self k st1 = Inr (s, nerr, derr) \<and>
                               cycle_converged self nerr derr)"
      and m: "if n = 0 then st' = st1
              else \<exists>k<n. \<exists>w v nerr derr. cycle_end env self k st1 = Inr (st', nerr, derr) \<and>
                     l_inner st' = Some (w, v, nerr, derr) \<and> (c \<or> k = n - 1)"
      using Suc.IH [OF o] by blast+
    have c': "c \<longleftrightarrow> (\<exists>k<Suc n. \<exists>s nerr derr. cycle_end env self k st = Inr (s, nerr, derr) \<and>
                               cycle_converged self nerr derr)"
    proof
      assume c
      then obtain k s nerr derr where "k < n" "cycle_end env self k st1 = Inr (s, nerr, derr)"
        "cycle_converged self nerr derr" using c by blast
      then have "Suc k < Suc n \<and> cycle_end env self (Suc k) st = Inr (s, nerr, derr) \<and>
                 cycle_converged self nerr derr"
        by (simp add: b)
      then show "\<exists>k<Suc n. \<exists>s nerr derr. cycle_end env self k st = Inr (s, nerr, derr) \<and>
                   cycle_converged self nerr derr" by blast
    next
      assume "\<exists>k<Suc n. \<exists>s nerr derr. cycle_end env self k st = Inr (s, nerr, derr) \<and>
                cycle_converged self nerr derr"
      then obtain k s nerr derr where k: "k < Suc n"
        "cycle_end env self k st = Inr (s, nerr, derr)" "cycle_converged self nerr derr"
        by blast
      show c
      proof (cases k)
        case 0
        then show ?thesis using k b False by simp
      next
        case (Suc j)
        then have "j < n" "cycle_end env self j st1 = Inr (s, nerr, derr)"
          using k b by simp_all
        then show ?thesis using c k(3) by blast
      qed
    qed
    have m': "\<exists>k<Suc n. \<exists>w v nerr derr. cycle_end env self k st = Inr (st', nerr, derr) \<and>
                l_inner st' = Some (w, v, nerr, derr) \<and> (c \<or> k = Suc n - 1)"
    proof (cases "n = 0")
      case True
      then have "st' = st1" using m by simp
      then show ?thesis using True i b by (intro exI [of _ 0]) simp
    next
      case False
      then obtain k w v nerr derr where "k < n"
        "cycle_end env self k st1 = Inr (st', nerr, derr)"
        "l_inner st' = Some (w, v, nerr, derr)" "c \<or> k = n - 1"
        using m by auto
      then have "Suc k < Suc n \<and> cycle_end env self (Suc k) st = Inr (st', nerr, derr) \<and>
                 l_inner st' = Some (w, v, nerr, derr) \<and> (c \<or> Suc k = Suc n - 1)"
        using False by (auto simp: b)
      then show ?thesis by blast
    qed
    show ?thesis using c' m' by simp
  qed
qed

text \<open>
  The soft failure of the Fock loop. With the loop switched on, whenever \<^verbatim>\<open>fock_loop\<close>
  returns, its flag is \<^verbatim>\<open>True\<close> exactly when one of the \<^verbatim>\<open>max_cycle_outer\<close> cycles
  ends with both errors below their tolerances, and what it returns are the self-energy
  and Green's function of the cycle it stopped in: a cycle that converged, or else the last
  one (the inputs when no cycle is configured).
\<close>

lemma fock_loop_soft_failure:
  assumes on: "fock_loop (opts self)"
      and ret: "RAGF2_fock_loop env self gf se fock_arg project_gf return_fock = Inr ret"
  shows "(ret_converged ret \<longleftrightarrow>
            (\<exists>k<max_cycle_outer (opts self). \<exists>s nerr derr.
               cycle_end env self k (init_locals env self gf se fock_arg) = Inr (s, nerr, derr) \<and>
               cycle_converged self nerr derr)) \<and>
         (if max_cycle_outer (opts self) = 0 then ret_gf ret = gf \<and> ret_se ret = se
          else \<exists>k<max_cycle_outer (opts self). \<exists>s w v nerr derr.
                 cycle_end env self k (init_locals env self gf se fock_arg) = Inr (s, nerr, derr) \<and>
                 l_inner s = Some (w, v, nerr, derr) \<and>
                 (ret_converged ret \<or> k = max_cycle_outer (opts self) - 1) \<and>
                 ret_se ret = l_se s \<and>
                 ret_gf ret = (if project_gf then l_gf s
                               else \<lparr> energy = w, coupling = v, chempot = chempot (l_se s) \<rparr>))"
proof -
  let ?N = "max_cycle_outer (opts self)"
  let ?st0 = "init_locals env self gf se fock_arg"
  obtain st' c where o: "outer_loop env self ?N ?st0 = Inr (st', c)"
    using on ret by (cases "outer_loop env self ?N ?st0") (auto simp: RAGF2_fock_loop_def)
  have r: "ret_converged ret = c" "ret_se ret = l_se st'"
    and rp: "project_gf \<Longrightarrow> ret_gf ret = l_gf st'"
    and rn: "\<not> project_gf \<Longrightarrow> \<exists>w v nerr derr. l_inner st' = Some (w, v, nerr, derr) \<and>
               ret_gf ret = \<lparr> energy = w, coupling = v, chempot = chempot (l_se st') \<rparr>"
    using on ret o
    by (auto simp: RAGF2_fock_loop_def Let_def split: option.splits if_splits)
  have c: "c \<longleftrightarrow> (\<exists>k<?N. \<exists>s nerr derr. cycle_end env self k ?st0 = Inr (s, nerr, derr) \<and>
                           cycle_converged self nerr derr)"
    and m: "if ?N = 0 then st' = ?st0
            else \<exists>k<?N. \<exists>w v nerr derr. cycle_end env self k ?st0 = Inr (st', nerr, derr) \<and>
                   l_inner st' = Some (w, v, nerr, derr) \<and> (c \<or> k = ?N - 1)"
    using outer_loop_result [OF o] by blast+
  have init: "l_gf ?st0 = gf" "l_se ?st0 = se" "l_inner ?st0 = None"
    by (simp_all add: init_locals_def Let_def)
  show ?thesis
  proof (cases "?N = 0")
    case True
    then have st: "st' = ?st0" using m by simp
    then have pg: project_gf using rn init by (cases project_gf) auto
    show ?thesis
      using True c r rp [OF pg] st init by simp
  next
    case False
    then obtain k w v nerr derr where k: "k < ?N"
        "cycle_end env self k ?st0 = Inr (st', nerr, derr)"
        "l_inner st' = Some (w, v, nerr, derr)" "c \<or> k = ?N - 1"
      using m by auto
    have g: "ret_gf ret = (if project_gf then l_gf st'
                           else \<lparr> energy = w, coupling = v, chempot = chempot (l_se st') \<rparr>)"
      using rp rn k(3) by (cases project_gf) auto
    have last: "\<exists>k<?N. \<exists>s w v nerr derr.
                  cycle_end env self k ?st0 = Inr (s, nerr, derr) \<and>
                  l_inner s = Some (w, v, nerr, derr) \<and>
                  (ret_converged ret \<or> k = ?N - 1) \<and>
                  ret_se ret = l_se s \<and>
                  ret_gf ret = (if project_gf then l_gf s
                                else \<lparr> energy = w, coupling = v, chempot = chempot (l_se s) \<rparr>)"
      using k r g by (intro exI [of _ k] conjI exI [of _ st'] exI [of _ w] exI [of _ v]
                    exI [of _ nerr] exI [of _ derr]) simp_all
    show ?thesis
      using False last c r by simp
  qed
qed

text \<open>
  With the default options the loop returns on the example: one outer cycle of one inner
  cycle, converged, with the Fock matrix built in that cycle.
\<close>

lemma fock_loop_example:
  "\<exists>ret. RAGF2_fock_loop example_env example_solver example_gf example_se None True True = Inr ret \<and>
         ret_converged ret \<and> ret_fock ret = Some [[1]] \<and> ret_se ret = example_se"
  by (simp add: RAGF2_fock_loop_def init_locals_def resolve_fock_def outer_loop_positive
        inner_loop_positive outer_body_def inner_body_def Let_def DIIS_update_def
        cycle_converged_def example_env_def example_solver_def default_options_def
        solve_dyson_def example_se_def example_gf_def)

text \<open>
  Without an inner cycle the first outer cycle reaches its log line with \<^verbatim>\<open>niter2\<close>,
  \<^verbatim>\<open>nerr\<close> and \<^verbatim>\<open>derr\<close> unbound; without an outer cycle and with \<^verbatim>\<open>project_gf\<close> off,
  the Green's function is built from the unbound \<^verbatim>\<open>w\<close> and \<^verbatim>\<open>v\<close>.
\<close>

lemma fock_loop_no_inner_cycle:
  assumes "fock_loop (opts self)" and "max_cycle_inner (opts self) = 0"
      and "0 < max_cycle_outer (opts self)"
  shows "RAGF2_fock_loop env self gf se fock_arg project_gf return_fock = Inl UnboundLocalError"
proof -
  obtain n where n: "max_cycle_outer (opts self) = Suc n"
    using assms(3) by (cases "max_cycle_outer (opts self)") simp_all
  have i: "l_inner (init_locals env self gf se fock_arg) = None"
    by (simp add: init_locals_def Let_def)
  have "outer_body env self (init_locals env self gf se fock_arg) = Inl UnboundLocalError"
    using assms(2) i by (simp add: outer_body_def Let_def)
  then show ?thesis
    using assms(1) n by (simp add: RAGF2_fock_loop_def)
qed

lemma fock_loop_no_outer_cycle:
  assumes "fock_loop (opts self)" and "max_cycle_outer (opts self) = 0"
      and "\<not> project_gf"
  shows "RAGF2_fock_loop env self gf se fock_arg project_gf return_fock = Inl UnboundLocalError"
proof -
  have i: "l_inner (init_locals env self gf se fock_arg) = None"
    by (simp add: init_locals_def Let_def)
  show ?thesis
    using assms i by (simp add: RAGF2_fock_loop_def Let_def)
qed

text \<open>
  C3, at the inputs where \<^verbatim>\<open>fock_loop\<close> departs from it. With the loop switched on and
  the default options except \<^verbatim>\<open>max_cycle_inner = 0\<close>, no cycle converges and the call
  ends in \<^verbatim>\<open>UnboundLocalError\<close> instead of returning with \<^verbatim>\<open>converged = False\<close>; so it
  does with \<^verbatim>\<open>max_cycle_outer = 0\<close> when \<^verbatim>\<open>project_gf\<close> is off.
\<close>

theorem fock_loop_unbound_local:
  "fock_loop default_options \<and>
   RAGF2_fock_loop example_env
     (example_solver\<lparr> opts := default_options\<lparr> max_cycle_inner := 0 \<rparr> \<rparr>)
     example_gf example_se None True False = Inl UnboundLocalError \<and>
   RAGF2_fock_loop example_env
     (example_solver\<lparr> opts := default_options\<lparr> max_cycle_outer := 0 \<rparr> \<rparr>)
     example_gf example_se None False False = Inl UnboundLocalError"
proof -
  have "RAGF2_fock_loop example_env
     (example_solver\<lparr> opts := default_options\<lparr> max_cycle_inner := 0 \<rparr> \<rparr>)
     example_gf example_se None True False = Inl UnboundLocalError"
    by (rule fock_loop_no_inner_cycle) (simp_all add: default_options_def)
  moreover have "RAGF2_fock_loop example_env
     (example_solver\<lparr> opts := default_options\<lparr> max_cycle_outer := 0 \<rparr> \<rparr>)
     example_gf example_se None False False = Inl UnboundLocalError"
    by (rule fock_loop_no_outer_cycle) (simp_all add: default_options_def)
  ultimately show ?thesis by (simp add: default_options_def)
qed

section \<open>The outer drivers\<close>








text \<open>The drivers on the examples.\<close>

lemma upt_two: "i + 1 < j \<Longrightarrow> [i..<j] = i # Suc i # [Suc (Suc i)..<j]"
  by (simp add: upt_conv_Cons)



lemma EAGF2_iteration_example:
  "\<exists>gf'. EAGF2_iteration example_env example_solver example_pre example_post_embedded [[1]]
            niter (gf, se, fock, ()) =
           Inr ((Some gf', example_se, [[1]], ()), (if niter = 0 then 1 else 0, 0, 0))"
  by (simp add: EAGF2_iteration_def RAGF2_fock_loop_def init_locals_def resolve_fock_def
        outer_loop_positive inner_loop_positive outer_body_def inner_body_def Let_def
        DIIS_update_def cycle_converged_def example_env_def example_solver_def
        default_options_def solve_dyson_def example_se_def unpack4_def example_pre_def
        example_post_embedded_def)

lemma EAGF2_kernel_example:
  "\<exists>out. EAGF2_kernel example_env example_solver 1 example_pre example_post_embedded [[1]] () =
           Inr out \<and> converged out \<and> checks out = [False, True]"
proof -
  obtain gf1 where i1: "EAGF2_iteration example_env example_solver example_pre
      example_post_embedded [[1]] 0 (None, empty_se (nact example_solver), [[1]], ()) =
      Inr ((Some gf1, example_se, [[1]], ()), (1, 0, 0))"
    using EAGF2_iteration_example [of 0 None "empty_se (nact example_solver)" "[[1]]"] by auto
  obtain gf2 where i2: "EAGF2_iteration example_env example_solver example_pre
      example_post_embedded [[1]] 1 (Some gf1, example_se, [[1]], ()) =
      Inr ((Some gf2, example_se, [[1]], ()), (0, 0, 0))"
    using EAGF2_iteration_example [of 1 "Some gf1" example_se "[[1]]"] by auto
  have mc: "max_cycle default_options + 1 = 51" by (simp add: default_options_def)
  have ns: "[0..<51::nat] = 0 # Suc 0 # [Suc (Suc 0)..<51]" by (rule upt_two) simp
  have o: "opts example_solver = default_options" by (simp add: example_solver_def)
  have ok: "deltas_ok default_options (0, 0, 0)" "\<not> deltas_ok default_options (1, 0, 0)"
    by (simp_all add: deltas_ok_def default_options_def)
  show ?thesis
    unfolding EAGF2_kernel_def o mc ns
    using i1 i2 by (simp add: ok)
qed


lemma EAGF2_kernel_unpack:
  "EAGF2_kernel example_env (example_solver\<lparr> opts := default_options\<lparr> fock_loop := False \<rparr> \<rparr>)
     1 example_pre example_post_embedded [[1]] () = Inl ValueError"
proof -
  let ?self = "example_solver\<lparr> opts := default_options\<lparr> fock_loop := False \<rparr> \<rparr>"
  have i: "EAGF2_iteration example_env ?self example_pre example_post_embedded [[1]] 0
             (None, empty_se (nact ?self), [[1]], ()) = Inl ValueError"
    by (simp add: EAGF2_iteration_def RAGF2_fock_loop_def resolve_fock_def Let_def
          example_env_def solve_dyson_def example_se_def unpack4_def example_pre_def)
  have mc: "max_cycle (opts ?self) + 1 = 51" by (simp add: default_options_def)
  have ns: "[0..<51::nat] = 0 # Suc 0 # [Suc (Suc 0)..<51]" by (rule upt_two) simp
  show ?thesis
    unfolding EAGF2_kernel_def mc ns using i by simp
qed




lemma RAGF2_loop_extra_cycle:
  assumes "extra_cycle options"
      and "converged_prev \<Longrightarrow> \<exists>pre. cs = pre @ [True]"
      and "RAGF2_loop options iteration ns s converged_prev cs = Inr out"
      and "converged out"
  shows "\<exists>pre. checks out = pre @ [True, True]"
  using assms(2,3)
proof (induction ns arbitrary: s converged_prev cs)
  case Nil
  then show ?case using assms(4) by auto
next
  case (Cons niter rest)
  obtain s' d where it: "iteration niter s = Inr (s', d)"
    using Cons.prems(2) by (cases "iteration niter s") auto
  show ?case
  proof (cases "deltas_ok options d")
    case ok: True
    show ?thesis
    proof (cases converged_prev)
      case True
      then obtain pre where "cs = pre @ [True]" using Cons.prems(1) by blast
      then show ?thesis using ok True assms(1) Cons.prems(2) by (auto simp: it)
    next
      case False
      have "RAGF2_loop options iteration rest s' True (cs @ [True]) = Inr out"
        using Cons.prems(2) ok False assms(1) by (simp add: it)
      then show ?thesis by (intro Cons.IH [of True "cs @ [True]" s']) simp_all
    qed
  next
    case nok: False
    have "RAGF2_loop options iteration rest s' False (cs @ [False]) = Inr out"
      using Cons.prems(2) nok assms(1) by (cases converged_prev) (simp_all add: it)
    then show ?thesis by (intro Cons.IH [of False "cs @ [False]" s']) simp_all
  qed
qed

text \<open>
  \<^verbatim>\<open>RAGF2.kernel\<close> honours \<^verbatim>\<open>extra_cycle\<close>: when it runs its loop and ends converged,
  the deltas met the tolerances in the last two iterations.
\<close>

lemma RAGF2_kernel_extra_cycle:
  assumes "extra_cycle (opts self)" and "\<not> as_adc (opts self)"
      and "RAGF2_kernel env self post st = Inr out" and "converged out"
  shows "\<exists>pre. checks out = pre @ [True, True]"
proof -
  have "RAGF2_loop (opts self) (RAGF2_iteration env self post)
          [1..<max_cycle (opts self) + 1] st False [] = Inr out"
    using assms(2,3) by (simp add: RAGF2_kernel_def)
  then show ?thesis
    using assms(4) by (intro RAGF2_loop_extra_cycle [OF assms(1)]) simp_all
qed

text \<open>Nothing that \<^verbatim>\<open>EAGF2.kernel\<close> runs reads the option \<^verbatim>\<open>extra_cycle\<close>.\<close>

lemma inner_body_extra_cycle:
  "inner_body env (self\<lparr> opts := (opts self)\<lparr> extra_cycle := b \<rparr> \<rparr>) st = inner_body env self st"
  by (cases "solve_dyson env (l_se st) (l_fock st)")
     (simp_all add: inner_body_def nelec_def Let_def split: prod.split)

lemma inner_loop_extra_cycle:
  "inner_loop env (self\<lparr> opts := (opts self)\<lparr> extra_cycle := b \<rparr> \<rparr>) n st =
   inner_loop env self n st"
proof (induction n arbitrary: st)
  case 0
  show ?case by simp
next
  case (Suc n)
  show ?case
    by (cases "inner_body env self st") (auto simp: inner_body_extra_cycle Suc)
qed

lemma outer_body_extra_cycle:
  "outer_body env (self\<lparr> opts := (opts self)\<lparr> extra_cycle := b \<rparr> \<rparr>) st = outer_body env self st"
  by (simp add: outer_body_def nelec_def Let_def inner_loop_extra_cycle)

lemma outer_loop_extra_cycle:
  "outer_loop env (self\<lparr> opts := (opts self)\<lparr> extra_cycle := b \<rparr> \<rparr>) n st =
   outer_loop env self n st"
proof (induction n arbitrary: st)
  case 0
  show ?case by simp
next
  case (Suc n)
  show ?case
    by (cases "outer_body env self st")
       (auto simp: outer_body_extra_cycle Suc cycle_converged_def)
qed

lemma fock_loop_extra_cycle:
  "RAGF2_fock_loop env (self\<lparr> opts := (opts self)\<lparr> extra_cycle := b \<rparr> \<rparr>) gf se fock_arg
     project_gf return_fock =
   RAGF2_fock_loop env self gf se fock_arg project_gf return_fock"
proof (cases "fock_loop (opts self)")
  case True
  then show ?thesis
    by (simp add: RAGF2_fock_loop_def outer_loop_extra_cycle init_locals_def)
next
  case False
  then have off: "\<not> fock_loop (opts (self\<lparr> opts := (opts self)\<lparr> extra_cycle := b \<rparr> \<rparr>))"
    by simp
  show ?thesis
    by (cases "solve_dyson env se (resolve_fock env gf fock_arg)")
       (simp_all add: fock_loop_disabled [OF False] fock_loop_disabled [OF off] nelec_def)
qed

lemma EAGF2_iteration_extra_cycle:
  "EAGF2_iteration env (self\<lparr> opts := (opts self)\<lparr> extra_cycle := b \<rparr> \<rparr>) pre post fock_mo
     niter st =
   EAGF2_iteration env self pre post fock_mo niter st"
proof -
  obtain gf se fock s where st: "st = (gf, se, fock, s)" by (cases st)
  show ?thesis
  proof (cases "pre niter se fock s")
    case (Inl e)
    then show ?thesis by (simp add: EAGF2_iteration_def st)
  next
    case (Inr r)
    obtain se1 s1 where r: "r = (se1, s1)" by (cases r)
    show ?thesis
    proof (cases "solve_dyson env se1 fock_mo")
      case (Inl e)
      then show ?thesis using Inr r by (simp add: EAGF2_iteration_def st)
    next
      case wv: (Inr wv)
      obtain w v where wv': "wv = (w, v)" by (cases wv)
      show ?thesis
        using Inr r wv wv' by (simp add: EAGF2_iteration_def st fock_loop_extra_cycle)
    qed
  qed
qed

lemma EAGF2_loop_extra_cycle:
  "EAGF2_loop (options\<lparr> extra_cycle := b \<rparr>) iteration ns s cs =
   EAGF2_loop options iteration ns s cs"
proof (induction ns arbitrary: s cs)
  case Nil
  show ?case by simp
next
  case (Cons niter rest)
  show ?case
    by (cases "iteration niter s") (auto simp: Cons deltas_ok_def)
qed

text \<open>
  C2, at an input where \<^verbatim>\<open>EAGF2.kernel\<close> departs from it: with the default options, which
  have \<^verbatim>\<open>extra_cycle\<close> on, a first iteration whose energy change is above the tolerance
  and a second iteration whose deltas are within the tolerances, the embedded driver ends
  converged after that single passing iteration. Nothing it runs reads \<^verbatim>\<open>extra_cycle\<close>:
  switching the option leaves its outcome unchanged.
\<close>

theorem EAGF2_kernel_single_pass_converges:
  "opts example_solver = default_options \<and> extra_cycle default_options \<and>
   (\<exists>out. EAGF2_kernel example_env example_solver 1 example_pre example_post_embedded [[1]] () =
            Inr out \<and> converged out \<and> checks out = [False, True]) \<and>
   EAGF2_kernel env (self\<lparr> opts := (opts self)\<lparr> extra_cycle := b \<rparr> \<rparr>) nfrag pre post fock_mo s =
     EAGF2_kernel env self nfrag pre post fock_mo s"
proof -
  have "EAGF2_iteration env (self\<lparr> opts := (opts self)\<lparr> extra_cycle := b \<rparr> \<rparr>) pre post fock_mo =
        EAGF2_iteration env self pre post fock_mo"
    by (intro ext) (rule EAGF2_iteration_extra_cycle)
  then have "EAGF2_kernel env (self\<lparr> opts := (opts self)\<lparr> extra_cycle := b \<rparr> \<rparr>) nfrag pre post fock_mo s =
        EAGF2_kernel env self nfrag pre post fock_mo s"
    by (simp add: EAGF2_kernel_def EAGF2_loop_extra_cycle)
  then show ?thesis
    using EAGF2_kernel_example by (simp add: example_solver_def default_options_def)
qed

end
